theory Spec2Isabelle
  imports Main "HOL-Library.Word"
begin

section \<open>The stall-detection harness of temp\_repro/stall\_test.cpp\<close>

text \<open>
  The program drives one camera in continuous acquisition. The driver calls
  \<open>StallTestEofHandler\<close> on its own thread once per frame; \<open>main\<close> waits for the
  handler's signal with a deadline of 2000 ms, counts the frames and stops at 200 frames or
  at the first missed deadline.

  The SDK's integer types are fixed-width words. Pointers that the code tests for null are
  options. Everything the program does to the outside (SDK calls, console output, memory
  allocation, the mutex) is recorded, in program order, as a list of events.
\<close>

subsection \<open>Data\<close>

type_synonym uns16 = "16 word"
type_synonym uns32 = "32 word"
type_synonym int16 = "16 word"
type_synonym int32 = "32 word"

text \<open>
  \<open>FRAME_INFO\<close> (pvcam.h) is copied as a whole by the handler; \<open>FrameNr\<close> is the only
  member the program reads.
\<close>

record FRAME_INFO =
  FrameNr :: int32

text \<open>
  \<open>Event\<close> and \<open>CameraContext\<close> are declared in Common.h; the members below are the ones
  stall\_test.cpp touches. The mutex and the condition variable carry no data: taking,
  releasing and notifying are events. \<open>eofFrame\<close> is a \<open>void*\<close>, kept as an address.
  The width of \<open>eofCounter\<close> is not visible from stall\_test.cpp; it is kept unbounded.
\<close>

record Event =
  flag :: bool

record CameraContext =
  hcam :: int16
  eofCounter :: nat
  eofFrameInfo :: FRAME_INFO
  eofFrame :: nat
  eofEvent :: Event

text \<open>The members of the context that both threads reach.\<close>

datatype loc = L_eofCounter | L_eofFrameInfo | L_eofFrame | L_flag

datatype event =
    MutexLock
  | MutexUnlock
  | CondNotifyAll
  | Write loc
  | Read loc
  | Call_pl_exp_get_latest_frame int16 bool
  | Call_InitAndOpenOneCamera bool
  | Call_pl_cam_register_callback_ex3 bool
  | Call_SelectCameraExpMode bool
  | Call_pl_exp_setup_cont bool
  | Call_UpdateCtxImageFormat
  | New_uns8 nat "nat option"
  | Call_pl_exp_start_cont nat uns32 bool
  | Call_WaitForEofEvent uns32 bool
  | Call_pl_exp_abort
  | Delete_uns8 nat
  | Call_CloseAllCamerasAndUninit
  | Call_PrintErrorMessage string
  | Cerr_FailedToOpenCamera
  | Cerr_AllocationFailed
  | Cout_Starting
  | Cerr_Timeout uns32
  | Cerr_PotentialStall uns32
  | Cout_Frame int32 int
  | Cout_Success
  | Cout_Failure uns32

subsection \<open>The callback handler\<close>

text \<open>
  What \<open>pl_exp_get_latest_frame(hcam, &ctx->eofFrame)\<close> did, as the driver decides it:
  its status, and the address it stored through the pointer, if it stored one.
\<close>

record latest_frame =
  pv_ok :: bool
  stored :: "nat option"

text \<open>
  \<open>StallTestEofHandler(pFrameInfo, pContext)\<close>, lines 7 to 28. The result is the context
  behind \<open>pContext\<close> after the call and the handler's events. The status of the fetch is
  compared with \<open>PV_OK\<close> and then dropped (the body of that \<open>if\<close> is empty).
\<close>

definition StallTestEofHandler ::
  "FRAME_INFO option \<Rightarrow> CameraContext option \<Rightarrow> latest_frame \<Rightarrow> CameraContext option \<times> event list" where
  "StallTestEofHandler pFrameInfo pContext fetch =
     (case pFrameInfo of
        None \<Rightarrow> (pContext, [])
      | Some fi \<Rightarrow>
          (case pContext of
             None \<Rightarrow> (pContext, [])
           | Some ctx \<Rightarrow>
               let c1 = ctx\<lparr>eofCounter := eofCounter ctx + 1\<rparr>;
                   c2 = c1\<lparr>eofFrameInfo := fi\<rparr>;
                   c3 = (case stored fetch of None \<Rightarrow> c2 | Some a \<Rightarrow> c2\<lparr>eofFrame := a\<rparr>);
                   c4 = c3\<lparr>eofEvent := (eofEvent c3)\<lparr>flag := True\<rparr>\<rparr>
               in (Some c4,
                   [Read L_eofCounter, Write L_eofCounter,
                    Write L_eofFrameInfo,
                    Call_pl_exp_get_latest_frame (hcam c2) (pv_ok fetch)]
                   @ (case stored fetch of None \<Rightarrow> [] | Some a \<Rightarrow> [Write L_eofFrame])
                   @ [MutexLock, Write L_flag, MutexUnlock, CondNotifyAll])))"

subsection \<open>The world the control loop runs in\<close>

text \<open>
  One invocation of the callback by the driver: the frame-info pointer it passes and what
  the fetch inside the handler will do. The context pointer is the one given at
  registration (line 44), so it is never null here.
\<close>

type_synonym callback = "FRAME_INFO option \<times> latest_frame"

text \<open>
  The world of the control thread: the camera context, the steady clock in milliseconds,
  and the callbacks the driver thread delivers during each millisecond.
\<close>

record world =
  ctx :: CameraContext
  now :: nat
  arrivals :: "nat \<Rightarrow> callback list"

text \<open>
  The driver calls the handler with the registered context; one millisecond of the world
  runs the handler for every callback of that millisecond, in order, and advances the
  clock.
\<close>

definition deliver :: "callback \<Rightarrow> CameraContext \<Rightarrow> CameraContext" where
  "deliver cb c =
     (case fst (StallTestEofHandler (fst cb) (Some c) (snd cb)) of
        None \<Rightarrow> c
      | Some c' \<Rightarrow> c')"

definition tick :: "world \<Rightarrow> world" where
  "tick w = w\<lparr>ctx := fold deliver (arrivals w (now w)) (ctx w), now := now w + 1\<rparr>"

text \<open>
  Modelled from the spec: the body of \<open>WaitForEofEvent\<close> (declared in Common.h) is missing.
  The spec's \<open>wait_or_timeout(deadline)\<close> blocks the calling thread until either the flag
  becomes true or the deadline elapses, then clears the flag before returning a fired
  result. Here the deadline is counted in milliseconds of the world's clock, and the flag
  is looked at once per millisecond, after the callbacks of that millisecond.
\<close>

fun wait_or_timeout :: "nat \<Rightarrow> world \<Rightarrow> bool \<times> world" where
  "wait_or_timeout 0 w =
     (if flag (eofEvent (ctx w))
      then (True, w\<lparr>ctx := (ctx w)\<lparr>eofEvent := (eofEvent (ctx w))\<lparr>flag := False\<rparr>\<rparr>\<rparr>)
      else (False, w))"
| "wait_or_timeout (Suc d) w =
     (if flag (eofEvent (ctx w))
      then (True, w\<lparr>ctx := (ctx w)\<lparr>eofEvent := (eofEvent (ctx w))\<lparr>flag := False\<rparr>\<rparr>\<rparr>)
      else wait_or_timeout d (tick w))"

text \<open>
  Modelled from the spec: \<open>WaitForEofEvent(ctx, timeoutMs, errorOccurred)\<close>, whose body is
  missing, is the spec's \<open>wait_or_timeout\<close> with the deadline \<open>timeoutMs\<close>.
\<close>

definition WaitForEofEvent :: "uns32 \<Rightarrow> world \<Rightarrow> bool \<times> world" where
  "WaitForEofEvent timeoutMs w = wait_or_timeout (unat timeoutMs) w"

subsection \<open>The control loop\<close>

text \<open>
  Lines 96 to 118. \<open>W\<close> stands for \<open>WaitForEofEvent\<close>: it receives the deadline and the
  world and returns whether a frame event fired, with the world as the wait left it. Its
  out-parameter \<open>errorOccurred\<close> is never read by \<open>main\<close>. The result is the final
  \<open>framesAcquired\<close>, the events of the loop and the world after it.
\<close>

function acq_loop ::
  "(uns32 \<Rightarrow> world \<Rightarrow> bool \<times> world) \<Rightarrow> uns32 \<Rightarrow> nat \<Rightarrow> world \<Rightarrow> uns32 \<times> event list \<times> world" where
  "acq_loop W framesAcquired lastFrameTime w =
     (if framesAcquired < 200 then
        (let r = W 2000 w in
         if \<not> fst r then
           (framesAcquired,
            [Call_WaitForEofEvent 2000 False,
             Cerr_Timeout (framesAcquired + 1),
             Cerr_PotentialStall framesAcquired],
            snd r)
         else
           (let now' = now (snd r);
                diff = int now' - int lastFrameTime;
                rest = acq_loop W (framesAcquired + 1) now' (snd r)
            in (fst rest,
                [Call_WaitForEofEvent 2000 True,
                 Read L_eofFrameInfo,
                 Cout_Frame (FrameNr (eofFrameInfo (ctx (snd r)))) diff] @ fst (snd rest),
                snd (snd rest))))
      else (framesAcquired, [], w))"
  by pat_completeness auto
termination
proof (relation "measure (\<lambda>(W, framesAcquired, lastFrameTime, w). 200 - unat framesAcquired)")
  show "wf (measure (\<lambda>(W, framesAcquired, lastFrameTime, w). 200 - unat framesAcquired))"
    by simp
next
  fix W :: "uns32 \<Rightarrow> world \<Rightarrow> bool \<times> world"
    and framesAcquired :: uns32 and lastFrameTime :: nat and w :: world
    and x :: "bool \<times> world" and xa :: nat
  assume lt: "framesAcquired < 200"
  from lt have "unat framesAcquired < 200"
    by (simp add: word_less_nat_alt)
  moreover from this have "unat (framesAcquired + 1) = unat framesAcquired + 1"
    by (simp add: unat_word_ariths)
  ultimately show "((W, framesAcquired + 1, xa, snd x), W, framesAcquired, lastFrameTime, w)
      \<in> measure (\<lambda>(W, framesAcquired, lastFrameTime, w). 200 - unat framesAcquired)"
    by simp
qed

subsection \<open>The program\<close>

text \<open>
  What the calls \<open>main\<close> makes before the loop return, and the state of the clock and of the
  driver when acquisition starts: \<open>InitAndOpenOneCamera\<close> gives the opened context or
  fails, \<open>SelectCameraExpMode\<close> gives the exposure mode or fails, \<open>pl_exp_setup_cont\<close> gives
  the per-frame byte size or fails, \<open>new (std::nothrow) uns8[n]\<close> gives the buffer's address
  or a null pointer.
\<close>

record env =
  InitAndOpenOneCamera :: "CameraContext option"
  pl_cam_register_callback_ex3 :: bool
  SelectCameraExpMode :: "int16 option"
  pl_exp_setup_cont :: "uns32 option"
  new_uns8 :: "nat \<Rightarrow> nat option"
  pl_exp_start_cont :: bool
  clock :: nat
  driver :: "nat \<Rightarrow> callback list"

definition circBufferFrames :: uns16 where
  "circBufferFrames = 20"

text \<open>Lines 124 to 128: the final message, chosen by \<open>framesAcquired == 200\<close>.\<close>

definition report :: "uns32 \<Rightarrow> event" where
  "report framesAcquired =
     (if framesAcquired = 200 then Cout_Success else Cout_Failure framesAcquired)"

text \<open>
  \<open>main\<close>, lines 30 to 131: the exit code and the events. The product on line 77 is taken
  in \<open>uns32\<close>, after the usual conversion of the \<open>uns16\<close> operand.
\<close>

definition main :: "(uns32 \<Rightarrow> world \<Rightarrow> bool \<times> world) \<Rightarrow> env \<Rightarrow> int \<times> event list" where
  "main W e =
     (case InitAndOpenOneCamera e of
        None \<Rightarrow> (1, [Call_InitAndOpenOneCamera False, Cerr_FailedToOpenCamera])
      | Some ctx0 \<Rightarrow>
     if \<not> pl_cam_register_callback_ex3 e then
       (1, [Call_InitAndOpenOneCamera True,
            Call_pl_cam_register_callback_ex3 False,
            Call_PrintErrorMessage ''pl_cam_register_callback() error'',
            Call_CloseAllCamerasAndUninit])
     else
     (case SelectCameraExpMode e of
        None \<Rightarrow>
          (1, [Call_InitAndOpenOneCamera True,
               Call_pl_cam_register_callback_ex3 True,
               Call_SelectCameraExpMode False,
               Call_CloseAllCamerasAndUninit])
      | Some expMode \<Rightarrow>
     (case pl_exp_setup_cont e of
        None \<Rightarrow>
          (1, [Call_InitAndOpenOneCamera True,
               Call_pl_cam_register_callback_ex3 True,
               Call_SelectCameraExpMode True,
               Call_pl_exp_setup_cont False,
               Call_PrintErrorMessage ''pl_exp_setup_cont() error'',
               Call_CloseAllCamerasAndUninit])
      | Some exposureBytes \<Rightarrow>
     (let circBufferBytes = ucast circBufferFrames * exposureBytes;
          setup = [Call_InitAndOpenOneCamera True,
                   Call_pl_cam_register_callback_ex3 True,
                   Call_SelectCameraExpMode True,
                   Call_pl_exp_setup_cont True,
                   Call_UpdateCtxImageFormat]
      in
     (case new_uns8 e (unat circBufferBytes) of
        None \<Rightarrow>
          (1, setup @
              [New_uns8 (unat circBufferBytes) None,
               Cerr_AllocationFailed,
               Call_CloseAllCamerasAndUninit])
      | Some circBufferInMemory \<Rightarrow>
     if \<not> pl_exp_start_cont e then
       (1, setup @
           [New_uns8 (unat circBufferBytes) (Some circBufferInMemory),
            Cout_Starting,
            Call_pl_exp_start_cont circBufferInMemory circBufferBytes False,
            Call_PrintErrorMessage ''pl_exp_start_cont() error'',
            Delete_uns8 circBufferInMemory,
            Call_CloseAllCamerasAndUninit])
     else
     (let w0 = \<lparr>ctx = ctx0, now = clock e, arrivals = driver e\<rparr>;
          run = acq_loop W 0 (now w0) w0
      in (0, setup @
             [New_uns8 (unat circBufferBytes) (Some circBufferInMemory),
              Cout_Starting,
              Call_pl_exp_start_cont circBufferInMemory circBufferBytes True]
             @ fst (snd run) @
             [Call_pl_exp_abort,
              Delete_uns8 circBufferInMemory,
              Call_CloseAllCamerasAndUninit,
              report (fst run)])))))))"

subsection \<open>Reading an event list\<close>

text \<open>The results of the waits, in order.\<close>

fun wait_results :: "event list \<Rightarrow> bool list" where
  "wait_results [] = []"
| "wait_results (Call_WaitForEofEvent t b # es) = b # wait_results es"
| "wait_results (e # es) = wait_results es"

text \<open>The sizes asked of \<open>new\<close>, the buffers it gave, the buffers given back.\<close>

fun requested :: "event list \<Rightarrow> nat list" where
  "requested [] = []"
| "requested (New_uns8 n r # es) = n # requested es"
| "requested (e # es) = requested es"

fun allocated :: "event list \<Rightarrow> nat list" where
  "allocated [] = []"
| "allocated (New_uns8 n (Some b) # es) = b # allocated es"
| "allocated (e # es) = allocated es"

fun released :: "event list \<Rightarrow> nat list" where
  "released [] = []"
| "released (Delete_uns8 b # es) = b # released es"
| "released (e # es) = released es"

text \<open>
  The reads and writes of shared members that a thread performs while it does not hold the
  mutex; the first argument says whether it holds the mutex at the start.
\<close>

fun unlocked :: "bool \<Rightarrow> event list \<Rightarrow> event list" where
  "unlocked held [] = []"
| "unlocked held (MutexLock # es) = unlocked True es"
| "unlocked held (MutexUnlock # es) = unlocked False es"
| "unlocked held (Write l # es) = (if held then unlocked held es else Write l # unlocked held es)"
| "unlocked held (Read l # es) = (if held then unlocked held es else Read l # unlocked held es)"
| "unlocked held (e # es) = unlocked held es"

text \<open>The events that the loop itself can produce.\<close>

fun loop_event :: "event \<Rightarrow> bool" where
  "loop_event (Call_WaitForEofEvent t b) = (t = 2000)"
| "loop_event (Read l) = (l = L_eofFrameInfo)"
| "loop_event (Cout_Frame nr diff) = True"
| "loop_event (Cerr_Timeout n) = True"
| "loop_event (Cerr_PotentialStall n) = True"
| "loop_event e = False"

text \<open>Consecutive waits with the given deadlines, by the wait of the spec.\<close>

fun waits :: "uns32 list \<Rightarrow> world \<Rightarrow> bool list \<times> world" where
  "waits [] w = ([], w)"
| "waits (t # ts) w =
     (let r = WaitForEofEvent t w; rs = waits ts (snd r)
      in (fst r # fst rs, snd rs))"

text \<open>
  A callback signals when its frame-info pointer is not null (the context pointer never is
  null, see above). \<open>signal_at w j\<close>: the driver gives a signal during millisecond \<open>j\<close>
  from now; \<open>given w k\<close>: the number of signals it gives during the next \<open>k\<close>
  milliseconds. Both read the driver's callbacks, not the context.
\<close>

definition is_signal :: "callback \<Rightarrow> bool" where
  "is_signal cb \<longleftrightarrow> fst cb \<noteq> None"

definition signal_at :: "world \<Rightarrow> nat \<Rightarrow> bool" where
  "signal_at w j \<longleftrightarrow> (\<exists>cb \<in> set (arrivals w (now w + j)). is_signal cb)"

fun given :: "world \<Rightarrow> nat \<Rightarrow> nat" where
  "given w 0 = 0"
| "given w (Suc k) = given w k + length (filter is_signal (arrivals w (now w + k)))"

text \<open>
  Signals given but not yet consumed (the flag holds at most one), the flag as it stands
  after \<open>k\<close> milliseconds without a consumer, and the world with the flag cleared.
\<close>

definition pending :: "world \<Rightarrow> nat" where
  "pending w = (if flag (eofEvent (ctx w)) then 1 else 0)"

definition flag_after :: "world \<Rightarrow> nat \<Rightarrow> bool" where
  "flag_after w k = flag (eofEvent (ctx ((tick ^^ k) w)))"

definition clear_flag :: "world \<Rightarrow> world" where
  "clear_flag w = w\<lparr>ctx := (ctx w)\<lparr>eofEvent := (eofEvent (ctx w))\<lparr>flag := False\<rparr>\<rparr>\<rparr>"

subsection \<open>Comparing two runs\<close>

text \<open>
  Two contexts that agree on everything but the address of the latest frame, and two worlds
  whose contexts agree so, whose clocks agree and whose drivers pass the same frame-info
  pointers at the same times, whatever the fetches inside the handler do.
\<close>

definition same_but_frame :: "CameraContext \<Rightarrow> CameraContext \<Rightarrow> bool" where
  "same_but_frame c1 c2 \<longleftrightarrow>
     hcam c1 = hcam c2 \<and> eofCounter c1 = eofCounter c2 \<and>
     eofFrameInfo c1 = eofFrameInfo c2 \<and> eofEvent c1 = eofEvent c2"

definition same_frames :: "world \<Rightarrow> world \<Rightarrow> bool" where
  "same_frames w1 w2 \<longleftrightarrow>
     same_but_frame (ctx w1) (ctx w2) \<and> now w1 = now w2 \<and>
     (\<forall>t. map fst (arrivals w1 t) = map fst (arrivals w2 t))"

text \<open>
  A wait that cannot tell such worlds apart: it returns the same result in both and leaves
  them as alike as they were. A wait that looks at the flag, the descriptor, the counter
  and the clock only is of this kind.
\<close>

definition blind_to_fetch :: "(uns32 \<Rightarrow> world \<Rightarrow> bool \<times> world) \<Rightarrow> bool" where
  "blind_to_fetch W \<longleftrightarrow>
     (\<forall>t w1 w2. same_frames w1 w2 \<longrightarrow>
        fst (W t w1) = fst (W t w2) \<and> same_frames (snd (W t w1)) (snd (W t w2)))"

subsection \<open>Sample inputs\<close>

definition ctx0 :: CameraContext where
  "ctx0 = \<lparr>hcam = 0, eofCounter = 0, eofFrameInfo = \<lparr>FrameNr = 0\<rparr>, eofFrame = 0,
            eofEvent = \<lparr>flag = False\<rparr>\<rparr>"

definition frame7 :: FRAME_INFO where
  "frame7 = \<lparr>FrameNr = 7\<rparr>"

definition fetch_ok :: latest_frame where
  "fetch_ok = \<lparr>pv_ok = True, stored = Some 4096\<rparr>"

definition fetch_failed :: latest_frame where
  "fetch_failed = \<lparr>pv_ok = False, stored = None\<rparr>"

text \<open>A driver that never calls back, and one that calls back twice within millisecond 0.\<close>

definition silent :: "nat \<Rightarrow> callback list" where
  "silent t = []"

definition back_to_back :: "nat \<Rightarrow> callback list" where
  "back_to_back t =
     (if t = 0 then [(Some \<lparr>FrameNr = 1\<rparr>, fetch_ok), (Some \<lparr>FrameNr = 2\<rparr>, fetch_ok)] else [])"

text \<open>A driver that delivers frame 7 in millisecond 0, with a failed or a healthy fetch.\<close>

definition one_frame :: "latest_frame \<Rightarrow> nat \<Rightarrow> callback list" where
  "one_frame fetch t = (if t = 0 then [(Some frame7, fetch)] else [])"

definition env_ok :: env where
  "env_ok = \<lparr>InitAndOpenOneCamera = Some ctx0, pl_cam_register_callback_ex3 = True,
     SelectCameraExpMode = Some 0, pl_exp_setup_cont = Some 1024,
     new_uns8 = Some, pl_exp_start_cont = True, clock = 0, driver = silent\<rparr>"

text \<open>An allocator with nothing left to give.\<close>

definition no_memory :: "nat \<Rightarrow> nat option" where
  "no_memory n = None"

definition w_idle :: world where
  "w_idle = \<lparr>ctx = ctx0, now = 0, arrivals = silent\<rparr>"

definition w_back_to_back :: world where
  "w_back_to_back = \<lparr>ctx = ctx0, now = 0, arrivals = back_to_back\<rparr>"

text \<open>
  A wait against a producer that fires every 10 ms for the first \<open>k\<close> frames and then
  stops.
\<close>

definition producer_for :: "nat \<Rightarrow> uns32 \<Rightarrow> world \<Rightarrow> bool \<times> world" where
  "producer_for k timeoutMs w =
     (if now w < 10 * k then (True, w\<lparr>now := now w + 10\<rparr>)
      else (False, w\<lparr>now := now w + unat timeoutMs\<rparr>))"

section \<open>Properties\<close>

declare acq_loop.simps [simp del]

subsection \<open>One turn of the loop\<close>

lemma unat_succ: "(fa :: uns32) < 200 \<Longrightarrow> unat (fa + 1) = unat fa + 1"
  by (simp add: word_less_nat_alt unat_word_ariths)

lemma succ_le: "(fa :: uns32) < 200 \<Longrightarrow> fa + 1 \<le> 200"
  by (simp add: word_less_nat_alt word_le_nat_alt unat_word_ariths)

lemma acq_loop_done: "\<not> fa < 200 \<Longrightarrow> acq_loop W fa t w = (fa, [], w)"
  by (simp add: acq_loop.simps)

lemma acq_loop_timeout:
  "fa < 200 \<Longrightarrow> \<not> fst (W 2000 w) \<Longrightarrow>
   acq_loop W fa t w =
     (fa, [Call_WaitForEofEvent 2000 False, Cerr_Timeout (fa + 1), Cerr_PotentialStall fa],
      snd (W 2000 w))"
  by (simp add: acq_loop.simps [of W fa])

lemma acq_loop_frame:
  "fa < 200 \<Longrightarrow> fst (W 2000 w) \<Longrightarrow>
   acq_loop W fa t w =
     (fst (acq_loop W (fa + 1) (now (snd (W 2000 w))) (snd (W 2000 w))),
      [Call_WaitForEofEvent 2000 True, Read L_eofFrameInfo,
       Cout_Frame (FrameNr (eofFrameInfo (ctx (snd (W 2000 w))))) (int (now (snd (W 2000 w))) - int t)]
      @ fst (snd (acq_loop W (fa + 1) (now (snd (W 2000 w))) (snd (W 2000 w)))),
      snd (snd (acq_loop W (fa + 1) (now (snd (W 2000 w))) (snd (W 2000 w)))))"
  by (simp add: acq_loop.simps [of W fa] Let_def)

lemma wait_results_append: "wait_results (xs @ ys) = wait_results xs @ wait_results ys"
  by (induction xs rule: wait_results.induct) auto

lemma acq_loop_shape:
  "fa \<le> 200 \<Longrightarrow> acq_loop W fa t w = (n, tr, w') \<Longrightarrow>
     (n = 200 \<and> wait_results tr = replicate (200 - unat fa) True) \<or>
     (n < 200 \<and> fa \<le> n \<and>
      wait_results tr = replicate (unat n - unat fa) True @ [False] \<and>
      (\<exists>pre. tr = pre @ [Call_WaitForEofEvent 2000 False, Cerr_Timeout (n + 1), Cerr_PotentialStall n]))"
proof (induction W fa t w arbitrary: n tr w' rule: acq_loop.induct)
  case (1 W fa t w)
  show ?case
  proof (cases "fa < 200")
    case False
    with "1.prems" have "fa = 200" by simp
    with "1.prems" show ?thesis by (simp add: acq_loop_done)
  next
    case lt: True
    show ?thesis
    proof (cases "fst (W 2000 w)")
      case False
      with lt "1.prems" show ?thesis
        by (auto simp: acq_loop_timeout)
    next
      case True
      let ?w1 = "snd (W 2000 w)"
      obtain n2 tr2 w2 where r: "acq_loop W (fa + 1) (now ?w1) ?w1 = (n2, tr2, w2)"
        by (cases "acq_loop W (fa + 1) (now ?w1) ?w1") auto
      from lt True "1.prems"(2) r have n: "n = n2"
        and tr: "tr = [Call_WaitForEofEvent 2000 True, Read L_eofFrameInfo,
                 Cout_Frame (FrameNr (eofFrameInfo (ctx ?w1))) (int (now ?w1) - int t)] @ tr2"
        by (simp_all add: acq_loop_frame)
      have IH: "(n2 = 200 \<and> wait_results tr2 = replicate (200 - unat (fa + 1)) True) \<or>
     (n2 < 200 \<and> fa + 1 \<le> n2 \<and>
      wait_results tr2 = replicate (unat n2 - unat (fa + 1)) True @ [False] \<and>
      (\<exists>pre. tr2 = pre @ [Call_WaitForEofEvent 2000 False, Cerr_Timeout (n2 + 1), Cerr_PotentialStall n2]))"
        using "1.IH" [OF lt refl _ refl refl succ_le [OF lt] r] True by simp
      from lt have u: "unat fa < 200" by (simp add: word_less_nat_alt)
      from IH show ?thesis
      proof
        assume a: "n2 = 200 \<and> wait_results tr2 = replicate (200 - unat (fa + 1)) True"
        have "Suc (200 - unat (fa + 1)) = 200 - unat fa" using u unat_succ [OF lt] by simp
        then have "True # replicate (200 - unat (fa + 1)) True = replicate (200 - unat fa) True"
          by (metis replicate_Suc)
        with a n tr show ?thesis by simp
      next
        assume b: "n2 < 200 \<and> fa + 1 \<le> n2 \<and>
      wait_results tr2 = replicate (unat n2 - unat (fa + 1)) True @ [False] \<and>
      (\<exists>pre. tr2 = pre @ [Call_WaitForEofEvent 2000 False, Cerr_Timeout (n2 + 1), Cerr_PotentialStall n2])"
        then have le: "unat fa + 1 \<le> unat n2" using unat_succ [OF lt] by (simp add: word_le_nat_alt)
        then have "Suc (unat n2 - unat (fa + 1)) = unat n2 - unat fa" using unat_succ [OF lt] by simp
        then have rep: "True # replicate (unat n2 - unat (fa + 1)) True = replicate (unat n2 - unat fa) True"
          by (metis replicate_Suc)
        from le have "fa \<le> n2" by (simp add: word_le_nat_alt)
        moreover from b obtain pre where "tr2 = pre @ [Call_WaitForEofEvent 2000 False, Cerr_Timeout (n2 + 1), Cerr_PotentialStall n2]" by blast
        then have "tr = ([Call_WaitForEofEvent 2000 True, Read L_eofFrameInfo,
                 Cout_Frame (FrameNr (eofFrameInfo (ctx ?w1))) (int (now ?w1) - int t)] @ pre) @ [Call_WaitForEofEvent 2000 False, Cerr_Timeout (n2 + 1), Cerr_PotentialStall n2]"
          using tr by simp
        then have "\<exists>pre. tr = pre @ [Call_WaitForEofEvent 2000 False, Cerr_Timeout (n2 + 1), Cerr_PotentialStall n2]" by blast
        ultimately show ?thesis using b n tr rep by simp
      qed
    qed
  qed
qed

lemma acq_loop_events: "\<forall>e \<in> set (fst (snd (acq_loop W fa t w))). loop_event e"
proof (induction W fa t w rule: acq_loop.induct)
  case (1 W fa t w)
  show ?case
  proof (cases "fa < 200")
    case False
    then show ?thesis by (simp add: acq_loop_done)
  next
    case lt: True
    show ?thesis
    proof (cases "fst (W 2000 w)")
      case False
      with lt show ?thesis by (simp add: acq_loop_timeout)
    next
      case True
      with lt "1.IH" [OF lt refl _ refl refl] show ?thesis
        by (simp add: acq_loop_frame)
    qed
  qed
qed

lemma producer_results:
  "fa \<le> 200 \<Longrightarrow> now w = 10 * unat fa \<Longrightarrow> unat fa \<le> k \<Longrightarrow>
   wait_results (fst (snd (acq_loop (producer_for k) fa t w))) =
     replicate (min k 200 - unat fa) True @ (if k < 200 then [False] else [])"
proof (induction "200 - unat fa" arbitrary: fa t w)
  case 0
  then have "unat fa = 200" by (simp add: word_le_nat_alt)
  then have "\<not> fa < 200" by (simp add: word_less_nat_alt)
  with 0 \<open>unat fa = 200\<close> show ?case by (simp add: acq_loop_done)
next
  case (Suc m)
  then have u: "unat fa < 200" by simp
  then have lt: "fa < 200" by (simp add: word_less_nat_alt)
  show ?case
  proof (cases "unat fa < k")
    case True
    with Suc.prems have f: "producer_for k 2000 w = (True, w\<lparr>now := now w + 10\<rparr>)"
      by (simp add: producer_for_def)
    let ?w1 = "w\<lparr>now := now w + 10\<rparr>"
    have "wait_results (fst (snd (acq_loop (producer_for k) (fa + 1) (now ?w1) ?w1))) =
       replicate (min k 200 - unat (fa + 1)) True @ (if k < 200 then [False] else [])"
    proof (rule Suc.hyps(1))
      show "m = 200 - unat (fa + 1)" using Suc.hyps(2) unat_succ [OF lt] by simp
      show "fa + 1 \<le> 200" by (rule succ_le [OF lt])
      show "now ?w1 = 10 * unat (fa + 1)" using Suc.prems unat_succ [OF lt] by simp
      show "unat (fa + 1) \<le> k" using True unat_succ [OF lt] by simp
    qed
    moreover have "Suc (min k 200 - unat (fa + 1)) = min k 200 - unat fa"
      using True u unat_succ [OF lt] by simp
    then have "True # replicate (min k 200 - unat (fa + 1)) True = replicate (min k 200 - unat fa) True"
      by (metis replicate_Suc)
    ultimately show ?thesis using lt f by (simp add: acq_loop_frame)
  next
    case False
    with Suc.prems have k: "k = unat fa" by simp
    with Suc.prems have "\<not> fst (producer_for k 2000 w)" by (simp add: producer_for_def)
    with lt k u show ?thesis by (simp add: acq_loop_timeout)
  qed
qed

subsection \<open>The events of the loop inside the events of main\<close>

lemma requested_append: "requested (xs @ ys) = requested xs @ requested ys"
  by (induction xs rule: requested.induct) auto

lemma allocated_append: "allocated (xs @ ys) = allocated xs @ allocated ys"
  by (induction xs rule: allocated.induct) auto

lemma released_append: "released (xs @ ys) = released xs @ released ys"
  by (induction xs rule: released.induct) auto

lemma loop_events_requested: "\<forall>e \<in> set tr. loop_event e \<Longrightarrow> requested tr = []"
  by (induction tr rule: requested.induct) auto

lemma loop_events_allocated: "\<forall>e \<in> set tr. loop_event e \<Longrightarrow> allocated tr = []"
  by (induction tr rule: allocated.induct) auto

lemma loop_events_released: "\<forall>e \<in> set tr. loop_event e \<Longrightarrow> released tr = []"
  by (induction tr rule: released.induct) auto

lemma loop_events_abort: "\<forall>e \<in> set tr. loop_event e \<Longrightarrow> count_list tr Call_pl_exp_abort = 0"
  by (induction tr) auto

lemma loop_events_member: "\<forall>e \<in> set tr. loop_event e \<Longrightarrow> \<not> loop_event x \<Longrightarrow> x \<notin> set tr"
  by blast

lemmas loop_requested = loop_events_requested [OF acq_loop_events]
lemmas loop_allocated = loop_events_allocated [OF acq_loop_events]
lemmas loop_released = loop_events_released [OF acq_loop_events]
lemmas loop_abort = loop_events_abort [OF acq_loop_events]
lemmas loop_member = loop_events_member [OF acq_loop_events]

lemma ucast_frames: "(ucast circBufferFrames :: uns32) = 20"
  by (simp add: circBufferFrames_def)

lemma main_started:
  assumes "InitAndOpenOneCamera e = Some c" and "pl_cam_register_callback_ex3 e"
    and "SelectCameraExpMode e = Some m" and "pl_exp_setup_cont e = Some eb"
    and "new_uns8 e (unat (20 * eb)) = Some buf" and "pl_exp_start_cont e"
  shows "main W e =
    (0, [Call_InitAndOpenOneCamera True, Call_pl_cam_register_callback_ex3 True,
         Call_SelectCameraExpMode True, Call_pl_exp_setup_cont True, Call_UpdateCtxImageFormat,
         New_uns8 (unat (20 * eb)) (Some buf), Cout_Starting,
         Call_pl_exp_start_cont buf (20 * eb) True]
        @ fst (snd (acq_loop W 0 (clock e) \<lparr>ctx = c, now = clock e, arrivals = driver e\<rparr>))
        @ [Call_pl_exp_abort, Delete_uns8 buf, Call_CloseAllCamerasAndUninit,
           report (fst (acq_loop W 0 (clock e) \<lparr>ctx = c, now = clock e, arrivals = driver e\<rparr>))])"
  using assms by (simp add: main_def Let_def ucast_frames)

lemma main_failed:
  assumes "InitAndOpenOneCamera e = None \<or> \<not> pl_cam_register_callback_ex3 e \<or>
     SelectCameraExpMode e = None \<or> pl_exp_setup_cont e = None \<or>
     (\<exists>eb. pl_exp_setup_cont e = Some eb \<and> new_uns8 e (unat (20 * eb)) = None) \<or>
     \<not> pl_exp_start_cont e"
  shows "fst (main W e) = 1 \<and> wait_results (snd (main W e)) = [] \<and>
     count_list (snd (main W e)) Call_pl_exp_abort = 0 \<and>
     released (snd (main W e)) = allocated (snd (main W e)) \<and>
     length (allocated (snd (main W e))) \<le> 1 \<and>
     (\<forall>buf sz. Call_pl_exp_start_cont buf sz True \<notin> set (snd (main W e)))"
  using assms by (auto simp: main_def Let_def ucast_frames split: option.splits)

lemma report_cases: "report n = Cout_Success \<or> report n = Cout_Failure n"
  by (simp add: report_def)

lemma not_started_cases:
  assumes "\<not> (\<exists>c m eb buf. InitAndOpenOneCamera e = Some c \<and> pl_cam_register_callback_ex3 e \<and>
          SelectCameraExpMode e = Some m \<and> pl_exp_setup_cont e = Some eb \<and>
          new_uns8 e (unat (20 * eb)) = Some buf \<and> pl_exp_start_cont e)"
  shows "InitAndOpenOneCamera e = None \<or> \<not> pl_cam_register_callback_ex3 e \<or>
     SelectCameraExpMode e = None \<or> pl_exp_setup_cont e = None \<or>
     (\<exists>eb. pl_exp_setup_cont e = Some eb \<and> new_uns8 e (unat (20 * eb)) = None) \<or>
     \<not> pl_exp_start_cont e"
  using assms
  by (cases "InitAndOpenOneCamera e"; cases "SelectCameraExpMode e"; cases "pl_exp_setup_cont e") auto

lemma main_new:
  assumes "New_uns8 sz r \<in> set (snd (main W e))"
  shows "\<exists>eb post. pl_exp_setup_cont e = Some eb \<and> sz = unat (20 * eb) \<and> r = new_uns8 e sz \<and>
     requested (snd (main W e)) = [sz] \<and>
     snd (main W e) =
       [Call_InitAndOpenOneCamera True, Call_pl_cam_register_callback_ex3 True,
        Call_SelectCameraExpMode True, Call_pl_exp_setup_cont True, Call_UpdateCtxImageFormat,
        New_uns8 sz r] @ post"
proof (cases "\<exists>c m eb buf. InitAndOpenOneCamera e = Some c \<and> pl_cam_register_callback_ex3 e \<and>
          SelectCameraExpMode e = Some m \<and> pl_exp_setup_cont e = Some eb \<and>
          new_uns8 e (unat (20 * eb)) = Some buf \<and> pl_exp_start_cont e")
  case True
  then obtain c m eb buf where ok: "InitAndOpenOneCamera e = Some c" "pl_cam_register_callback_ex3 e"
    "SelectCameraExpMode e = Some m" "pl_exp_setup_cont e = Some eb"
    "new_uns8 e (unat (20 * eb)) = Some buf" "pl_exp_start_cont e"
    by blast
  note m = main_started [OF ok, of W]
  have nl: "New_uns8 sz r \<notin> set (fst (snd (acq_loop W 0 (clock e) \<lparr>ctx = c, now = clock e, arrivals = driver e\<rparr>)))"
    by (rule loop_member) simp
  from assms m nl report_cases [of "fst (acq_loop W 0 (clock e) \<lparr>ctx = c, now = clock e, arrivals = driver e\<rparr>)"]
  have "sz = unat (20 * eb) \<and> r = Some buf" by auto
  with m ok show ?thesis
    by (simp add: requested_append loop_requested report_def)
next
  case False
  from not_started_cases [OF False] assms show ?thesis
    by (auto simp: main_def Let_def ucast_frames split: option.splits if_splits)
qed

subsection \<open>The handler, case by case\<close>

lemma handler_nonnull:
  "StallTestEofHandler (Some fi) (Some c) f =
     (Some (c\<lparr>eofCounter := eofCounter c + 1, eofFrameInfo := fi,
              eofFrame := (case stored f of None \<Rightarrow> eofFrame c | Some a \<Rightarrow> a),
              eofEvent := (eofEvent c)\<lparr>flag := True\<rparr>\<rparr>),
      [Read L_eofCounter, Write L_eofCounter, Write L_eofFrameInfo,
       Call_pl_exp_get_latest_frame (hcam c) (pv_ok f)]
      @ (case stored f of None \<Rightarrow> [] | Some a \<Rightarrow> [Write L_eofFrame])
      @ [MutexLock, Write L_flag, MutexUnlock, CondNotifyAll])"
  by (simp add: StallTestEofHandler_def Let_def split: option.splits)

lemma handler_null:
  "pFrameInfo = None \<or> pContext = None \<Longrightarrow>
   StallTestEofHandler pFrameInfo pContext f = (pContext, [])"
  by (auto simp: StallTestEofHandler_def split: option.splits)

lemma deliver_null: "deliver (None, f) c = c"
  by (simp add: deliver_def handler_null)

lemma deliver_frame:
  "deliver (Some fi, f) c =
     c\<lparr>eofCounter := eofCounter c + 1, eofFrameInfo := fi,
       eofFrame := (case stored f of None \<Rightarrow> eofFrame c | Some a \<Rightarrow> a),
       eofEvent := (eofEvent c)\<lparr>flag := True\<rparr>\<rparr>"
  by (simp add: deliver_def handler_nonnull)

subsection \<open>Who holds the mutex\<close>

lemma loop_event_plain:
  "loop_event x \<Longrightarrow>
   x \<noteq> MutexLock \<and> x \<noteq> MutexUnlock \<and> (\<forall>l. x \<noteq> Write l) \<and> (\<forall>l. x = Read l \<longrightarrow> l = L_eofFrameInfo)"
  by (cases x) auto

lemma main_event_plain:
  assumes "x \<in> set (snd (main W e))"
  shows "x \<noteq> MutexLock \<and> x \<noteq> MutexUnlock \<and> (\<forall>l. x \<noteq> Write l) \<and> (\<forall>l. x = Read l \<longrightarrow> l = L_eofFrameInfo)"
proof (cases "\<exists>c m eb buf. InitAndOpenOneCamera e = Some c \<and> pl_cam_register_callback_ex3 e \<and>
          SelectCameraExpMode e = Some m \<and> pl_exp_setup_cont e = Some eb \<and>
          new_uns8 e (unat (20 * eb)) = Some buf \<and> pl_exp_start_cont e")
  case True
  then obtain c m eb buf where ok: "InitAndOpenOneCamera e = Some c" "pl_cam_register_callback_ex3 e"
    "SelectCameraExpMode e = Some m" "pl_exp_setup_cont e = Some eb"
    "new_uns8 e (unat (20 * eb)) = Some buf" "pl_exp_start_cont e"
    by blast
  let ?L = "acq_loop W 0 (clock e) \<lparr>ctx = c, now = clock e, arrivals = driver e\<rparr>"
  from assms main_started [OF ok, of W] report_cases [of "fst ?L"]
  have "x \<in> set (fst (snd ?L)) \<or>
        (x \<noteq> MutexLock \<and> x \<noteq> MutexUnlock \<and> (\<forall>l. x \<noteq> Write l) \<and> (\<forall>l. x \<noteq> Read l))"
    by auto
  then show ?thesis
  proof
    assume "x \<in> set (fst (snd ?L))"
    with acq_loop_events have "loop_event x" by blast
    then show ?thesis by (rule loop_event_plain)
  next
    assume "x \<noteq> MutexLock \<and> x \<noteq> MutexUnlock \<and> (\<forall>l. x \<noteq> Write l) \<and> (\<forall>l. x \<noteq> Read l)"
    then show ?thesis by simp
  qed
next
  case False
  from not_started_cases [OF False] assms show ?thesis
    by (auto simp: main_def Let_def ucast_frames split: option.splits if_splits)
qed

lemma unlocked_without_lock:
  "MutexLock \<notin> set tr \<Longrightarrow> Read l \<in> set tr \<Longrightarrow> Read l \<in> set (unlocked False tr)"
  by (induction False tr rule: unlocked.induct) auto

lemma unlocked_subset: "set (unlocked held tr) \<subseteq> set tr"
  by (induction held tr rule: unlocked.induct) auto

lemma fired_then_read:
  assumes a: "True \<in> set (wait_results (fst (snd (acq_loop W fa t w))))"
  shows "Read L_eofFrameInfo \<in> set (fst (snd (acq_loop W fa t w)))"
proof (cases "fa < 200")
  case False
  with a show ?thesis by (simp add: acq_loop_done)
next
  case lt: True
  show ?thesis
  proof (cases "fst (W 2000 w)")
    case False
    with lt a show ?thesis by (simp add: acq_loop_timeout)
  next
    case True
    with lt show ?thesis by (simp add: acq_loop_frame)
  qed
qed

lemma report_no_wait: "wait_results [report n] = []"
  by (simp add: report_def)

lemma main_fired_then_read:
  assumes "True \<in> set (wait_results (snd (main W e)))"
  shows "Read L_eofFrameInfo \<in> set (snd (main W e))"
proof (cases "\<exists>c m eb buf. InitAndOpenOneCamera e = Some c \<and> pl_cam_register_callback_ex3 e \<and>
          SelectCameraExpMode e = Some m \<and> pl_exp_setup_cont e = Some eb \<and>
          new_uns8 e (unat (20 * eb)) = Some buf \<and> pl_exp_start_cont e")
  case True
  then obtain c m eb buf where ok: "InitAndOpenOneCamera e = Some c" "pl_cam_register_callback_ex3 e"
    "SelectCameraExpMode e = Some m" "pl_exp_setup_cont e = Some eb"
    "new_uns8 e (unat (20 * eb)) = Some buf" "pl_exp_start_cont e"
    by blast
  let ?L = "acq_loop W 0 (clock e) \<lparr>ctx = c, now = clock e, arrivals = driver e\<rparr>"
  note m = main_started [OF ok, of W]
  from assms m have "True \<in> set (wait_results (fst (snd ?L)))"
    by (simp add: wait_results_append report_no_wait)
  then have "Read L_eofFrameInfo \<in> set (fst (snd ?L))" by (rule fired_then_read)
  with m show ?thesis by simp
next
  case False
  from main_failed [OF not_started_cases [OF False], of W] assms show ?thesis by simp
qed

subsection \<open>The wait of the spec\<close>

lemma wait_fired:
  "flag (eofEvent (ctx w)) \<Longrightarrow>
   wait_or_timeout d w = (True, w\<lparr>ctx := (ctx w)\<lparr>eofEvent := (eofEvent (ctx w))\<lparr>flag := False\<rparr>\<rparr>\<rparr>)"
  by (cases d) simp_all

lemma tick_quiet: "arrivals w (now w) = [] \<Longrightarrow> tick w = w\<lparr>now := now w + 1\<rparr>"
  by (simp add: tick_def)

lemma wait_quiet:
  "\<not> flag (eofEvent (ctx w)) \<Longrightarrow> \<forall>k<d. arrivals w (now w + k) = [] \<Longrightarrow>
   wait_or_timeout d w = (False, w\<lparr>now := now w + d\<rparr>)"
proof (induction d arbitrary: w)
  case 0
  then show ?case by simp
next
  case (Suc d)
  from Suc.prems(2) have q: "arrivals w (now w) = []" by force
  have "\<forall>k<d. arrivals (tick w) (now (tick w) + k) = []"
  proof (intro allI impI)
    fix k assume "k < d"
    then have "Suc k < Suc d" by simp
    with Suc.prems(2) have "arrivals w (now w + Suc k) = []" by blast
    then show "arrivals (tick w) (now (tick w) + k) = []"
      by (simp add: tick_quiet [OF q])
  qed
  moreover have "\<not> flag (eofEvent (ctx (tick w)))"
    using Suc.prems(1) by (simp add: tick_quiet [OF q])
  ultimately have "wait_or_timeout d (tick w) = (False, (tick w)\<lparr>now := now (tick w) + d\<rparr>)"
    by (rule Suc.IH [rotated])
  with Suc.prems(1) show ?case by (simp add: tick_quiet [OF q])
qed

lemma wait_step:
  "\<not> flag (eofEvent (ctx w)) \<Longrightarrow> 0 < d \<Longrightarrow> wait_or_timeout d w = wait_or_timeout (d - 1) (tick w)"
  by (cases d) simp_all

lemma first_wait_back_to_back:
  "WaitForEofEvent 2000 w_back_to_back =
     (True, \<lparr>ctx = \<lparr>hcam = 0, eofCounter = 2, eofFrameInfo = \<lparr>FrameNr = 2\<rparr>, eofFrame = 4096,
                    eofEvent = \<lparr>flag = False\<rparr>\<rparr>,
             now = Suc 0, arrivals = back_to_back\<rparr>)"
proof -
  have t: "tick w_back_to_back =
      \<lparr>ctx = \<lparr>hcam = 0, eofCounter = 2, eofFrameInfo = \<lparr>FrameNr = 2\<rparr>, eofFrame = 4096,
                eofEvent = \<lparr>flag = True\<rparr>\<rparr>,
        now = Suc 0, arrivals = back_to_back\<rparr>"
    by (simp add: tick_def w_back_to_back_def back_to_back_def deliver_frame ctx0_def fetch_ok_def)
  have "wait_or_timeout 2000 w_back_to_back = wait_or_timeout (2000 - 1) (tick w_back_to_back)"
    by (rule wait_step) (simp_all add: w_back_to_back_def ctx0_def)
  also have "\<dots> = (True, \<lparr>ctx = \<lparr>hcam = 0, eofCounter = 2, eofFrameInfo = \<lparr>FrameNr = 2\<rparr>,
                    eofFrame = 4096, eofEvent = \<lparr>flag = False\<rparr>\<rparr>,
             now = Suc 0, arrivals = back_to_back\<rparr>)"
    by (simp add: t wait_fired)
  finally show ?thesis by (simp add: WaitForEofEvent_def)
qed

lemma second_wait_back_to_back:
  "WaitForEofEvent 2000
     \<lparr>ctx = \<lparr>hcam = 0, eofCounter = 2, eofFrameInfo = \<lparr>FrameNr = 2\<rparr>, eofFrame = 4096,
              eofEvent = \<lparr>flag = False\<rparr>\<rparr>,
      now = Suc 0, arrivals = back_to_back\<rparr> =
     (False, \<lparr>ctx = \<lparr>hcam = 0, eofCounter = 2, eofFrameInfo = \<lparr>FrameNr = 2\<rparr>, eofFrame = 4096,
                     eofEvent = \<lparr>flag = False\<rparr>\<rparr>,
              now = 2001, arrivals = back_to_back\<rparr>)"
  unfolding WaitForEofEvent_def
  by (subst wait_quiet) (simp_all add: back_to_back_def)

subsection \<open>The flag between two looks of the consumer\<close>

lemma tick_now: "now (tick w) = now w + 1" and tick_arrivals: "arrivals (tick w) = arrivals w"
  by (simp_all add: tick_def)

lemma ticks_now: "now ((tick ^^ k) w) = now w + k"
  by (induction k) (simp_all add: tick_now)

lemma ticks_arrivals: "arrivals ((tick ^^ k) w) = arrivals w"
  by (induction k) (simp_all add: tick_arrivals)

lemma deliver_flag: "flag (eofEvent (deliver cb c)) \<longleftrightarrow> is_signal cb \<or> flag (eofEvent c)"
proof (cases cb)
  case (Pair pfi f)
  then show ?thesis
    by (cases pfi) (simp_all add: deliver_null deliver_frame is_signal_def)
qed

lemma fold_deliver_flag:
  "flag (eofEvent (fold deliver cbs c)) \<longleftrightarrow> (\<exists>cb \<in> set cbs. is_signal cb) \<or> flag (eofEvent c)"
  by (induction cbs arbitrary: c) (auto simp: deliver_flag)

lemma tick_flag: "flag (eofEvent (ctx (tick w))) \<longleftrightarrow> signal_at w 0 \<or> flag (eofEvent (ctx w))"
  by (simp add: tick_def fold_deliver_flag signal_at_def)

lemma signal_at_ticks: "signal_at ((tick ^^ k) w) j = signal_at w (k + j)"
  by (simp add: signal_at_def ticks_now ticks_arrivals add.assoc)

lemma flag_after_0: "flag_after w 0 = flag (eofEvent (ctx w))"
  by (simp add: flag_after_def)

lemma flag_after_Suc: "flag_after w (Suc k) \<longleftrightarrow> signal_at w k \<or> flag_after w k"
  using tick_flag [of "(tick ^^ k) w"] by (simp add: flag_after_def signal_at_ticks)

lemma flag_after_tick: "flag_after (tick w) k = flag_after w (Suc k)"
  by (simp add: flag_after_def funpow_swap1)

lemma flag_after_signals:
  "flag_after w k \<longleftrightarrow> flag (eofEvent (ctx w)) \<or> (\<exists>j<k. signal_at w j)"
proof (induction k)
  case 0
  show ?case by (simp add: flag_after_0)
next
  case (Suc k)
  then show ?case by (auto simp: flag_after_Suc less_Suc_eq)
qed

lemma clear_flag_fields:
  "now (clear_flag w) = now w" "arrivals (clear_flag w) = arrivals w" "pending (clear_flag w) = 0"
  by (simp_all add: clear_flag_def pending_def)

subsection \<open>What a wait returns\<close>

lemma wait_exact:
  "(\<exists>k\<le>d. flag_after w k \<and> (\<forall>j<k. \<not> flag_after w j) \<and>
           wait_or_timeout d w = (True, clear_flag ((tick ^^ k) w))) \<or>
   ((\<forall>k\<le>d. \<not> flag_after w k) \<and> wait_or_timeout d w = (False, (tick ^^ d) w))"
proof (induction d arbitrary: w)
  case 0
  show ?case by (simp add: flag_after_0 clear_flag_def)
next
  case (Suc d)
  show ?case
  proof (cases "flag (eofEvent (ctx w))")
    case True
    then have "flag_after w 0 \<and> (\<forall>j<0. \<not> flag_after w j) \<and>
           wait_or_timeout (Suc d) w = (True, clear_flag ((tick ^^ 0) w))"
      by (simp add: flag_after_0 clear_flag_def)
    then show ?thesis by blast
  next
    case False
    then have step: "wait_or_timeout (Suc d) w = wait_or_timeout d (tick w)" by simp
    from False have f0: "\<not> flag_after w 0" by (simp add: flag_after_0)
    from Suc.IH [of "tick w"] show ?thesis
    proof
      assume "\<exists>k\<le>d. flag_after (tick w) k \<and> (\<forall>j<k. \<not> flag_after (tick w) j) \<and>
           wait_or_timeout d (tick w) = (True, clear_flag ((tick ^^ k) (tick w)))"
      then obtain k where k: "k \<le> d" "flag_after (tick w) k" "\<forall>j<k. \<not> flag_after (tick w) j"
        "wait_or_timeout d (tick w) = (True, clear_flag ((tick ^^ k) (tick w)))"
        by blast
      have "\<forall>j<Suc k. \<not> flag_after w j"
      proof (intro allI impI)
        fix j assume "j < Suc k"
        show "\<not> flag_after w j"
        proof (cases j)
          case 0
          with f0 show ?thesis by simp
        next
          case (Suc i)
          with \<open>j < Suc k\<close> k(3) show ?thesis by (simp add: flag_after_tick)
        qed
      qed
      moreover from k(2) have "flag_after w (Suc k)" by (simp add: flag_after_tick)
      moreover from k(4) step have "wait_or_timeout (Suc d) w = (True, clear_flag ((tick ^^ Suc k) w))"
        by (simp add: funpow_swap1)
      moreover from k(1) have "Suc k \<le> Suc d" by simp
      ultimately show ?thesis by blast
    next
      assume a: "(\<forall>k\<le>d. \<not> flag_after (tick w) k) \<and> wait_or_timeout d (tick w) = (False, (tick ^^ d) (tick w))"
      have "\<forall>k\<le>Suc d. \<not> flag_after w k"
      proof (intro allI impI)
        fix k assume "k \<le> Suc d"
        show "\<not> flag_after w k"
        proof (cases k)
          case 0
          with f0 show ?thesis by simp
        next
          case (Suc i)
          with \<open>k \<le> Suc d\<close> a show ?thesis by (simp add: flag_after_tick)
        qed
      qed
      moreover from a step have "wait_or_timeout (Suc d) w = (False, (tick ^^ Suc d) w)"
        by (simp add: funpow_swap1)
      ultimately show ?thesis by blast
    qed
  qed
qed

lemma wait_fires_iff:
  "fst (wait_or_timeout d w) \<longleftrightarrow> 0 < pending w \<or> (\<exists>j<d. signal_at w j)"
proof -
  have "fst (wait_or_timeout d w) \<longleftrightarrow> (\<exists>k\<le>d. flag_after w k)"
    using wait_exact [of d w] by auto
  also have "\<dots> \<longleftrightarrow> flag (eofEvent (ctx w)) \<or> (\<exists>j<d. signal_at w j)"
  proof
    assume "\<exists>k\<le>d. flag_after w k"
    then obtain k where "k \<le> d" "flag_after w k" by blast
    then show "flag (eofEvent (ctx w)) \<or> (\<exists>j<d. signal_at w j)"
      by (auto simp: flag_after_signals)
  next
    assume "flag (eofEvent (ctx w)) \<or> (\<exists>j<d. signal_at w j)"
    then have "flag_after w d" by (simp add: flag_after_signals)
    then show "\<exists>k\<le>d. flag_after w k" by blast
  qed
  finally show ?thesis by (simp add: pending_def)
qed

subsection \<open>Counting the signals\<close>

lemma given_add:
  "now w1 = now w + a \<Longrightarrow> arrivals w1 = arrivals w \<Longrightarrow> given w (a + b) = given w a + given w1 b"
  by (induction b) (simp_all add: add.assoc)

lemma flag_after_given: "flag_after w k \<Longrightarrow> 1 \<le> given w k + pending w"
proof (induction k)
  case 0
  then show ?case by (simp add: flag_after_0 pending_def)
next
  case (Suc k)
  show ?case
  proof (cases "flag_after w k")
    case True
    with Suc.IH show ?thesis by simp
  next
    case False
    with Suc.prems have "signal_at w k" by (simp add: flag_after_Suc)
    then have "filter is_signal (arrivals w (now w + k)) \<noteq> []"
      by (auto simp: signal_at_def filter_empty_conv)
    then have "1 \<le> length (filter is_signal (arrivals w (now w + k)))"
      by (cases "filter is_signal (arrivals w (now w + k))") simp_all
    then show ?thesis by simp
  qed
qed

lemma wait_summary:
  "\<exists>a. now (snd (wait_or_timeout d w)) = now w + a \<and>
       arrivals (snd (wait_or_timeout d w)) = arrivals w \<and>
       pending (snd (wait_or_timeout d w)) = 0 \<and>
       (if fst (wait_or_timeout d w) then 1 else 0) \<le> given w a + pending w"
  using wait_exact [of d w]
proof
  assume "\<exists>k\<le>d. flag_after w k \<and> (\<forall>j<k. \<not> flag_after w j) \<and>
           wait_or_timeout d w = (True, clear_flag ((tick ^^ k) w))"
  then obtain k where k: "flag_after w k" "wait_or_timeout d w = (True, clear_flag ((tick ^^ k) w))"
    by blast
  from k(2) flag_after_given [OF k(1)]
  have "now (snd (wait_or_timeout d w)) = now w + k \<and>
       arrivals (snd (wait_or_timeout d w)) = arrivals w \<and>
       pending (snd (wait_or_timeout d w)) = 0 \<and>
       (if fst (wait_or_timeout d w) then 1 else 0) \<le> given w k + pending w"
    by (simp add: clear_flag_fields ticks_now ticks_arrivals)
  then show ?thesis by blast
next
  assume a: "(\<forall>k\<le>d. \<not> flag_after w k) \<and> wait_or_timeout d w = (False, (tick ^^ d) w)"
  then have "\<not> flag_after w d" by simp
  then have "pending ((tick ^^ d) w) = 0" by (simp add: flag_after_def pending_def)
  with a have "now (snd (wait_or_timeout d w)) = now w + d \<and>
       arrivals (snd (wait_or_timeout d w)) = arrivals w \<and>
       pending (snd (wait_or_timeout d w)) = 0 \<and>
       (if fst (wait_or_timeout d w) then 1 else 0) \<le> given w d + pending w"
    by (simp add: ticks_now ticks_arrivals)
  then show ?thesis by blast
qed

lemma waits_summary:
  "\<exists>a. now (snd (waits ts w)) = now w + a \<and>
       arrivals (snd (waits ts w)) = arrivals w \<and>
       count_list (fst (waits ts w)) True + pending (snd (waits ts w)) \<le> given w a + pending w"
proof (induction ts arbitrary: w)
  case Nil
  have "now (snd (waits [] w)) = now w + 0 \<and> arrivals (snd (waits [] w)) = arrivals w \<and>
       count_list (fst (waits [] w)) True + pending (snd (waits [] w)) \<le> given w 0 + pending w"
    by simp
  then show ?case by blast
next
  case (Cons t ts)
  let ?w1 = "snd (WaitForEofEvent t w)"
  from wait_summary [of "unat t" w] obtain a where a: "now ?w1 = now w + a" "arrivals ?w1 = arrivals w"
    "pending ?w1 = 0" "(if fst (WaitForEofEvent t w) then 1 else 0) \<le> given w a + pending w"
    by (auto simp: WaitForEofEvent_def)
  from Cons.IH [of ?w1] obtain b where b: "now (snd (waits ts ?w1)) = now ?w1 + b"
    "arrivals (snd (waits ts ?w1)) = arrivals ?w1"
    "count_list (fst (waits ts ?w1)) True + pending (snd (waits ts ?w1)) \<le> given ?w1 b + pending ?w1"
    by blast
  have g: "given w (a + b) = given w a + given ?w1 b" by (rule given_add [OF a(1,2)])
  from a b g have "now (snd (waits (t # ts) w)) = now w + (a + b) \<and>
       arrivals (snd (waits (t # ts) w)) = arrivals w \<and>
       count_list (fst (waits (t # ts) w)) True + pending (snd (waits (t # ts) w))
         \<le> given w (a + b) + pending w"
    by (simp add: Let_def split: if_splits)
  then show ?case by blast
qed

lemma given_back_to_back: "given w_back_to_back (Suc k) = 2"
  by (induction k) (simp_all add: w_back_to_back_def back_to_back_def is_signal_def)

subsection \<open>Runs that differ in the fetches only\<close>

lemma deliver_same:
  "fst cb1 = fst cb2 \<Longrightarrow> same_but_frame c1 c2 \<Longrightarrow> same_but_frame (deliver cb1 c1) (deliver cb2 c2)"
  by (cases cb1; cases cb2; cases "fst cb1")
     (simp_all add: deliver_null deliver_frame same_but_frame_def)

lemma fold_deliver_same:
  "map fst cbs1 = map fst cbs2 \<Longrightarrow> same_but_frame c1 c2 \<Longrightarrow>
   same_but_frame (fold deliver cbs1 c1) (fold deliver cbs2 c2)"
proof (induction cbs1 arbitrary: cbs2 c1 c2)
  case Nil
  then show ?case by simp
next
  case (Cons cb cbs1)
  from Cons.prems(1) obtain cb' cbs2' where c: "cbs2 = cb' # cbs2'" "fst cb = fst cb'"
    "map fst cbs1 = map fst cbs2'"
    by (cases cbs2) auto
  from deliver_same [OF c(2) Cons.prems(2)] Cons.IH [OF c(3)] c(1) show ?case by simp
qed

lemma tick_same: "same_frames w1 w2 \<Longrightarrow> same_frames (tick w1) (tick w2)"
  using fold_deliver_same [of "arrivals w1 (now w1)" "arrivals w2 (now w2)" "ctx w1" "ctx w2"]
  by (simp add: same_frames_def tick_def)

lemma wait_same:
  "same_frames w1 w2 \<Longrightarrow>
   fst (wait_or_timeout d w1) = fst (wait_or_timeout d w2) \<and>
   same_frames (snd (wait_or_timeout d w1)) (snd (wait_or_timeout d w2))"
proof (induction d arbitrary: w1 w2)
  case 0
  then show ?case by (auto simp: same_frames_def same_but_frame_def)
next
  case (Suc d)
  from Suc.prems have f: "flag (eofEvent (ctx w1)) = flag (eofEvent (ctx w2))"
    by (simp add: same_frames_def same_but_frame_def)
  show ?case
  proof (cases "flag (eofEvent (ctx w1))")
    case True
    with f Suc.prems show ?thesis by (auto simp: same_frames_def same_but_frame_def)
  next
    case False
    with f Suc.IH [OF tick_same [OF Suc.prems]] show ?thesis by simp
  qed
qed

lemma wait_blind: "blind_to_fetch WaitForEofEvent"
  by (simp add: blind_to_fetch_def WaitForEofEvent_def wait_same)

lemma loop_same:
  assumes b: "blind_to_fetch W"
  shows "same_frames w1 w2 \<Longrightarrow>
   fst (acq_loop W fa t w1) = fst (acq_loop W fa t w2) \<and>
   fst (snd (acq_loop W fa t w1)) = fst (snd (acq_loop W fa t w2))"
proof (induction "200 - unat fa" arbitrary: fa t w1 w2)
  case 0
  then have "\<not> fa < 200" by (simp add: word_less_nat_alt)
  then show ?case by (simp add: acq_loop_done)
next
  case (Suc m)
  then have lt: "fa < 200" by (simp add: word_less_nat_alt)
  let ?r1 = "W 2000 w1" and ?r2 = "W 2000 w2"
  from b Suc.prems
  have r: "fst ?r1 = fst ?r2" and s: "same_frames (snd ?r1) (snd ?r2)"
    by (simp_all add: blind_to_fetch_def)
  show ?case
  proof (cases "fst ?r1")
    case False
    with r lt show ?thesis by (simp add: acq_loop_timeout)
  next
    case True
    from s have n: "now (snd ?r1) = now (snd ?r2)"
      and d: "eofFrameInfo (ctx (snd ?r1)) = eofFrameInfo (ctx (snd ?r2))"
      by (simp_all add: same_frames_def same_but_frame_def)
    have m: "m = 200 - unat (fa + 1)" using Suc.hyps(2) unat_succ [OF lt] by simp
    from Suc.hyps(1) [OF m s, of "now (snd ?r1)"] True r lt n d
    show ?thesis by (simp add: acq_loop_frame)
  qed
qed

lemma main_same:
  assumes "blind_to_fetch W" and "\<forall>t. map fst (d t) = map fst (driver e t)"
  shows "main W (e\<lparr>driver := d\<rparr>) = main W e"
proof -
  have "same_frames \<lparr>ctx = c, now = clock e, arrivals = d\<rparr> \<lparr>ctx = c, now = clock e, arrivals = driver e\<rparr>" for c
    using assms(2) by (simp add: same_frames_def same_but_frame_def)
  from loop_same [OF assms(1) this] show ?thesis
    by (simp add: main_def Let_def split: option.splits)
qed

lemma one_frame_first_wait:
  "WaitForEofEvent 2000 \<lparr>ctx = ctx0, now = 0, arrivals = one_frame f\<rparr> =
     (True, \<lparr>ctx = \<lparr>hcam = 0, eofCounter = Suc 0, eofFrameInfo = frame7,
                    eofFrame = (case stored f of None \<Rightarrow> 0 | Some a \<Rightarrow> a),
                    eofEvent = \<lparr>flag = False\<rparr>\<rparr>,
             now = Suc 0, arrivals = one_frame f\<rparr>)"
proof -
  let ?w = "\<lparr>ctx = ctx0, now = 0, arrivals = one_frame f\<rparr>"
  have t: "tick ?w =
      \<lparr>ctx = \<lparr>hcam = 0, eofCounter = Suc 0, eofFrameInfo = frame7,
                eofFrame = (case stored f of None \<Rightarrow> 0 | Some a \<Rightarrow> a),
                eofEvent = \<lparr>flag = True\<rparr>\<rparr>,
        now = Suc 0, arrivals = one_frame f\<rparr>"
    by (simp add: tick_def one_frame_def deliver_frame ctx0_def split: option.splits)
  have "wait_or_timeout 2000 ?w = wait_or_timeout (2000 - 1) (tick ?w)"
    by (rule wait_step) (simp_all add: ctx0_def)
  also have "\<dots> = (True, \<lparr>ctx = \<lparr>hcam = 0, eofCounter = Suc 0, eofFrameInfo = frame7,
                    eofFrame = (case stored f of None \<Rightarrow> 0 | Some a \<Rightarrow> a),
                    eofEvent = \<lparr>flag = False\<rparr>\<rparr>,
             now = Suc 0, arrivals = one_frame f\<rparr>)"
    by (simp add: t wait_fired)
  finally show ?thesis by (simp add: WaitForEofEvent_def)
qed

lemma one_frame_second_wait:
  "\<not> fst (WaitForEofEvent 2000
     \<lparr>ctx = \<lparr>hcam = 0, eofCounter = Suc 0, eofFrameInfo = frame7, eofFrame = a,
              eofEvent = \<lparr>flag = False\<rparr>\<rparr>,
      now = Suc 0, arrivals = one_frame f\<rparr>)"
  unfolding WaitForEofEvent_def
  by (subst wait_quiet) (simp_all add: one_frame_def)

lemma one_frame_results:
  "wait_results (snd (main WaitForEofEvent (env_ok\<lparr>driver := one_frame f\<rparr>))) = [True, False]"
proof -
  let ?w = "\<lparr>ctx = ctx0, now = 0, arrivals = one_frame f\<rparr>"
  have "wait_results (fst (snd (acq_loop WaitForEofEvent 0 0 ?w))) = [True, False]"
    by (simp add: acq_loop_frame [of 0] one_frame_first_wait acq_loop_timeout [of 1] one_frame_second_wait)
  then show ?thesis
    by (simp add: main_def env_ok_def Let_def ucast_frames wait_results_append report_no_wait)
qed

subsection \<open>The loop stops at the first missed deadline\<close>

text \<open>
  C1. If a wait of the loop returns without a frame event (no signal within the deadline of
  2000 ms), the loop ends there: every earlier wait fired, the missed wait is the last one
  and was issued with the deadline 2000, \<open>framesAcquired\<close> is the number of waits that
  fired before it (a timeout does not increment it) and is below 200, the loop's last
  messages name frame \<open>framesAcquired + 1\<close> as the one timed out on, and the final message
  is the failure one. In particular, when exactly the first 84 waits fire, the timeout is
  reported for frame 85 and \<open>framesAcquired\<close> is 84.
\<close>


theorem stall_keeps_count:
  assumes "acq_loop W 0 t w = (n, tr, w')" and "False \<in> set (wait_results tr)"
  shows "n < 200 \<and> wait_results tr = replicate (unat n) True @ [False] \<and>
         (\<exists>pre. tr = pre @ [Call_WaitForEofEvent 2000 False, Cerr_Timeout (n + 1), Cerr_PotentialStall n]) \<and>
         report n = Cout_Failure n \<and>
         (wait_results tr = replicate 84 True @ [False] \<longrightarrow>
            n = 84 \<and> (\<exists>pre. tr = pre @ [Call_WaitForEofEvent 2000 False, Cerr_Timeout 85, Cerr_PotentialStall 84]))"
proof -
  from acq_loop_shape [OF _ assms(1)] assms(2)
  have s: "n < 200 \<and> wait_results tr = replicate (unat n) True @ [False] \<and>
      (\<exists>pre. tr = pre @ [Call_WaitForEofEvent 2000 False, Cerr_Timeout (n + 1), Cerr_PotentialStall n])"
    by auto
  then have r: "report n = Cout_Failure n" by (auto simp: report_def)
  have "n = 84 \<and> (\<exists>pre. tr = pre @ [Call_WaitForEofEvent 2000 False, Cerr_Timeout 85, Cerr_PotentialStall 84])"
    if a: "wait_results tr = replicate 84 True @ [False]"
  proof -
    from a s have "length (replicate (unat n) True @ [False]) = length (replicate 84 True @ [False])"
      by simp
    then have "unat n = unat (84 :: uns32)" by simp
    then have n84: "n = 84" by (simp only: word_unat_eq_iff)
    from s obtain pre where
      "tr = pre @ [Call_WaitForEofEvent 2000 False, Cerr_Timeout (n + 1), Cerr_PotentialStall n]"
      by blast
    with n84 have "tr = pre @ [Call_WaitForEofEvent 2000 False, Cerr_Timeout 85, Cerr_PotentialStall 84]"
      by simp
    with n84 show ?thesis by blast
  qed
  with s r show ?thesis by blast
qed

theorem stall_keeps_count_witness:
  "False \<in> set (wait_results (fst (snd (acq_loop (producer_for 84) 0 0 w_idle)))) \<and>
   wait_results (fst (snd (acq_loop (producer_for 84) 0 0 w_idle))) = replicate 84 True @ [False] \<and>
   fst (acq_loop (producer_for 84) 0 0 w_idle) = 84 \<and>
   report (fst (acq_loop (producer_for 84) 0 0 w_idle)) = Cout_Failure 84"
proof -
  have res: "wait_results (fst (snd (acq_loop (producer_for 84) 0 0 w_idle))) = replicate 84 True @ [False]"
    using producer_results [of 0 w_idle 84 0] by (simp add: w_idle_def)
  then have h: "False \<in> set (wait_results (fst (snd (acq_loop (producer_for 84) 0 0 w_idle))))"
    by simp
  have "acq_loop (producer_for 84) 0 0 w_idle =
      (fst (acq_loop (producer_for 84) 0 0 w_idle),
       fst (snd (acq_loop (producer_for 84) 0 0 w_idle)),
       snd (snd (acq_loop (producer_for 84) 0 0 w_idle)))"
    by simp
  from stall_keeps_count [OF this h] res h show ?thesis by (simp add: report_def)
qed

subsection \<open>A run without a missed deadline completes\<close>

text \<open>
  C2. If every wait of the loop returns a frame event, the loop started at a count
  \<open>fa\<close> makes exactly \<open>200 - fa\<close> turns, one per consumed signal, and ends with
  \<open>framesAcquired = 200\<close> and the success message; from 0, as \<open>main\<close> starts it,
  these are exactly 200 turns.
\<close>


theorem completed_run_counts:
  assumes "fa \<le> 200" and "acq_loop W fa t w = (n, tr, w')" and "False \<notin> set (wait_results tr)"
  shows "n = 200 \<and> wait_results tr = replicate (200 - unat fa) True \<and> report n = Cout_Success"
  using acq_loop_shape [OF assms(1,2)] assms(3) by (auto simp: report_def)

theorem completed_run_counts_witness:
  "(0 :: uns32) \<le> 200 \<and>
   False \<notin> set (wait_results (fst (snd (acq_loop (producer_for 200) 0 0 w_idle)))) \<and>
   fst (acq_loop (producer_for 200) 0 0 w_idle) = 200 \<and>
   wait_results (fst (snd (acq_loop (producer_for 200) 0 0 w_idle))) = replicate 200 True \<and>
   report (fst (acq_loop (producer_for 200) 0 0 w_idle)) = Cout_Success"
proof -
  have h: "False \<notin> set (wait_results (fst (snd (acq_loop (producer_for 200) 0 0 w_idle))))"
    using producer_results [of 0 w_idle 200 0] by (simp add: w_idle_def)
  have z: "(0 :: uns32) \<le> 200" by simp
  have "acq_loop (producer_for 200) 0 0 w_idle =
      (fst (acq_loop (producer_for 200) 0 0 w_idle),
       fst (snd (acq_loop (producer_for 200) 0 0 w_idle)),
       snd (snd (acq_loop (producer_for 200) 0 0 w_idle)))"
    by simp
  from completed_run_counts [OF z this h] h show ?thesis by (simp add: report_def)
qed

subsection \<open>Teardown\<close>

text \<open>
  C3, as amended. \<open>pl_exp_abort\<close> is called exactly once in a run whose acquisition
  started (exit code 0: the loop completed or stalled) and not at all in a run that failed
  during setup. The buffers released are exactly the buffers allocated, in every run: at
  most one buffer is allocated, it is released once, also when \<open>pl_exp_start_cont\<close>
  fails, and nothing is released when nothing was allocated. When the acquisition started,
  the run ends with the abort, then the release, then the closing of the camera and the
  final message.
\<close>


theorem teardown_counts:
  assumes "main W e = (code, tr)"
  shows "count_list tr Call_pl_exp_abort = (if code = 0 then 1 else 0) \<and>
         released tr = allocated tr \<and> length (allocated tr) \<le> 1 \<and>
         (code = 0 \<longrightarrow>
            (\<exists>pre buf m. tr = pre @ [Call_pl_exp_abort, Delete_uns8 buf, Call_CloseAllCamerasAndUninit, m]))"
proof (cases "\<exists>c m eb buf. InitAndOpenOneCamera e = Some c \<and> pl_cam_register_callback_ex3 e \<and>
          SelectCameraExpMode e = Some m \<and> pl_exp_setup_cont e = Some eb \<and>
          new_uns8 e (unat (20 * eb)) = Some buf \<and> pl_exp_start_cont e")
  case True
  then obtain c m eb buf where ok: "InitAndOpenOneCamera e = Some c" "pl_cam_register_callback_ex3 e"
    "SelectCameraExpMode e = Some m" "pl_exp_setup_cont e = Some eb"
    "new_uns8 e (unat (20 * eb)) = Some buf" "pl_exp_start_cont e"
    by blast
  let ?L = "acq_loop W 0 (clock e) \<lparr>ctx = c, now = clock e, arrivals = driver e\<rparr>"
  note m = main_started [OF ok, of W]
  from m assms have tr: "tr = ([Call_InitAndOpenOneCamera True, Call_pl_cam_register_callback_ex3 True,
         Call_SelectCameraExpMode True, Call_pl_exp_setup_cont True, Call_UpdateCtxImageFormat,
         New_uns8 (unat (20 * eb)) (Some buf), Cout_Starting,
         Call_pl_exp_start_cont buf (20 * eb) True] @ fst (snd ?L))
        @ [Call_pl_exp_abort, Delete_uns8 buf, Call_CloseAllCamerasAndUninit, report (fst ?L)]"
    and code: "code = 0"
    by simp_all
  then have last: "\<exists>pre buf m. tr = pre @ [Call_pl_exp_abort, Delete_uns8 buf, Call_CloseAllCamerasAndUninit, m]"
    by blast
  from tr report_cases [of "fst ?L"]
  have "count_list tr Call_pl_exp_abort = 1 \<and> released tr = allocated tr \<and> length (allocated tr) \<le> 1"
    by (auto simp: loop_abort loop_released loop_allocated released_append allocated_append)
  with code last show ?thesis by simp
next
  case False
  from main_failed [OF not_started_cases [OF False], of W] assms show ?thesis by auto
qed

theorem teardown_counts_witness:
  "count_list (snd (main (producer_for 84) env_ok)) Call_pl_exp_abort = 1 \<and>
   released (snd (main (producer_for 84) env_ok)) = allocated (snd (main (producer_for 84) env_ok)) \<and>
   count_list (snd (main (producer_for 84) (env_ok\<lparr>pl_exp_start_cont := False\<rparr>))) Call_pl_exp_abort = 0"
proof -
  have a: "fst (main (producer_for 84) env_ok) = 0"
    by (simp add: main_def env_ok_def Let_def ucast_frames)
  have b: "fst (main (producer_for 84) (env_ok\<lparr>pl_exp_start_cont := False\<rparr>)) = 1"
    by (simp add: main_def env_ok_def Let_def ucast_frames)
  from teardown_counts [OF surjective_pairing, of "producer_for 84" env_ok]
    teardown_counts [OF surjective_pairing, of "producer_for 84" "env_ok\<lparr>pl_exp_start_cont := False\<rparr>"]
    a b
  show ?thesis by simp
qed

text \<open>
  A run in which \<open>pl_exp_start_cont\<close> fails: the buffer is allocated and released, and
  \<open>pl_exp_abort\<close> is not called.
\<close>

theorem teardown_counts_counterexample:
  "fst (main (producer_for 84) (env_ok\<lparr>pl_exp_start_cont := False\<rparr>)) = 1 \<and>
   allocated (snd (main (producer_for 84) (env_ok\<lparr>pl_exp_start_cont := False\<rparr>))) = [20480] \<and>
   count_list (snd (main (producer_for 84) (env_ok\<lparr>pl_exp_start_cont := False\<rparr>))) Call_pl_exp_abort = 0"
  by (simp add: main_def env_ok_def Let_def ucast_frames)

subsection \<open>The circular buffer\<close>

text \<open>
  What line 77 asks for. Whenever \<open>main\<close> asks for the circular buffer,
  \<open>pl_exp_setup_cont\<close> has returned the per-frame byte size before (the request follows
  the setup calls in the events, and is the only request of the run), and the size asked
  for is 20 times the per-frame byte size reduced modulo \<open>2 ^ 32\<close>, the product being
  taken in \<open>uns32\<close>; it is the exact product whenever the per-frame size is at most
  214748364. If the allocation fails, the run ends with exit code 1 and has not waited on
  the frame event at all.
\<close>

lemma buffer_request:
  assumes "main W e = (code, tr)" and "New_uns8 sz r \<in> set tr"
  shows "\<exists>exposureBytes post.
     pl_exp_setup_cont e = Some exposureBytes \<and>
     sz = (20 * unat exposureBytes) mod 2 ^ 32 \<and>
     (unat exposureBytes \<le> 214748364 \<longrightarrow> sz = 20 * unat exposureBytes) \<and>
     requested tr = [sz] \<and>
     tr = [Call_InitAndOpenOneCamera True, Call_pl_cam_register_callback_ex3 True,
           Call_SelectCameraExpMode True, Call_pl_exp_setup_cont True, Call_UpdateCtxImageFormat,
           New_uns8 sz r] @ post \<and>
     (r = None \<longrightarrow> code = 1 \<and> wait_results tr = [])"
proof -
  from assms have "New_uns8 sz r \<in> set (snd (main W e))" by simp
  from main_new [OF this] assms(1) obtain eb post where
    eb: "pl_exp_setup_cont e = Some eb" and sz: "sz = unat (20 * eb)" and r: "r = new_uns8 e sz"
    and rq: "requested tr = [sz]"
    and tr: "tr = [Call_InitAndOpenOneCamera True, Call_pl_cam_register_callback_ex3 True,
        Call_SelectCameraExpMode True, Call_pl_exp_setup_cont True, Call_UpdateCtxImageFormat,
        New_uns8 sz r] @ post"
    by auto
  from sz have m: "sz = (20 * unat eb) mod 2 ^ 32"
    by (simp add: unat_word_ariths)
  then have small: "sz = 20 * unat eb" if "unat eb \<le> 214748364"
    using that by simp
  have "code = 1 \<and> wait_results tr = []" if "r = None"
  proof -
    from that r sz eb have "\<exists>eb. pl_exp_setup_cont e = Some eb \<and> new_uns8 e (unat (20 * eb)) = None"
      by simp
    then have "fst (main W e) = 1 \<and> wait_results (snd (main W e)) = []"
      using main_failed [of e W] by blast
    with assms(1) show ?thesis by simp
  qed
  with eb m small rq tr show ?thesis by blast
qed

lemma buffer_request_example:
  "New_uns8 20480 None \<in> set (snd (main (producer_for 84) (env_ok\<lparr>new_uns8 := no_memory\<rparr>))) \<and>
   fst (main (producer_for 84) (env_ok\<lparr>new_uns8 := no_memory\<rparr>)) = 1 \<and>
   wait_results (snd (main (producer_for 84) (env_ok\<lparr>new_uns8 := no_memory\<rparr>))) = [] \<and>
   requested (snd (main (producer_for 84) (env_ok\<lparr>new_uns8 := no_memory\<rparr>))) = [20 * 1024]"
proof -
  have h: "New_uns8 20480 None \<in> set (snd (main (producer_for 84) (env_ok\<lparr>new_uns8 := no_memory\<rparr>)))"
    by (simp add: main_def env_ok_def Let_def ucast_frames no_memory_def)
  have p: "main (producer_for 84) (env_ok\<lparr>new_uns8 := no_memory\<rparr>) =
    (fst (main (producer_for 84) (env_ok\<lparr>new_uns8 := no_memory\<rparr>)),
     snd (main (producer_for 84) (env_ok\<lparr>new_uns8 := no_memory\<rparr>)))"
    by simp
  from buffer_request [OF p h] h show ?thesis by auto
qed

text \<open>
  C8. The circular buffer is to hold 20 frames: its capacity is 20 times the per-frame
  byte size that \<open>pl_exp_setup_cont\<close> returned. The product on line 77 is not checked for
  overflow. With a per-frame size of 214748365 bytes every setup step succeeds, the product
  4294967300 wraps to 4, and \<open>main\<close> asks for a buffer of 4 bytes and starts the
  acquisition on it with the size 4.
\<close>

theorem buffer_capacity_wraps:
  "pl_exp_setup_cont (env_ok\<lparr>pl_exp_setup_cont := Some 214748365\<rparr>) = Some 214748365 \<and>
   fst (main (producer_for 0) (env_ok\<lparr>pl_exp_setup_cont := Some 214748365\<rparr>)) = 0 \<and>
   requested (snd (main (producer_for 0) (env_ok\<lparr>pl_exp_setup_cont := Some 214748365\<rparr>))) = [4] \<and>
   Call_pl_exp_start_cont 4 4 True
     \<in> set (snd (main (producer_for 0) (env_ok\<lparr>pl_exp_setup_cont := Some 214748365\<rparr>))) \<and>
   (4 :: nat) \<noteq> 20 * 214748365"
  by (simp add: main_def env_ok_def Let_def ucast_frames requested_append loop_requested report_def)

subsection \<open>The exit code\<close>

text \<open>
  C10. The exit code is 0 or 1. It is 0 exactly when every step before the loop succeeded
  (open, callback registration, exposure mode, acquisition setup, allocation, start of the
  acquisition), that is, exactly when \<open>pl_exp_start_cont\<close> returned success, whatever the
  waits of the loop return afterwards; it is 1 only when one of these steps failed, and
  then no wait was made.
\<close>


theorem exit_code_by_setup:
  assumes "main W e = (code, tr)"
  shows "(code = 0 \<or> code = 1) \<and>
    (code = 0 \<longleftrightarrow>
       (\<exists>c m eb buf. InitAndOpenOneCamera e = Some c \<and> pl_cam_register_callback_ex3 e \<and>
          SelectCameraExpMode e = Some m \<and> pl_exp_setup_cont e = Some eb \<and>
          new_uns8 e (unat (20 * eb)) = Some buf \<and> pl_exp_start_cont e)) \<and>
    (code = 0 \<longleftrightarrow> (\<exists>buf sz. Call_pl_exp_start_cont buf sz True \<in> set tr)) \<and>
    (code = 1 \<longrightarrow> wait_results tr = [])"
proof (cases "\<exists>c m eb buf. InitAndOpenOneCamera e = Some c \<and> pl_cam_register_callback_ex3 e \<and>
          SelectCameraExpMode e = Some m \<and> pl_exp_setup_cont e = Some eb \<and>
          new_uns8 e (unat (20 * eb)) = Some buf \<and> pl_exp_start_cont e")
  case True
  then obtain c m eb buf where ok: "InitAndOpenOneCamera e = Some c" "pl_cam_register_callback_ex3 e"
    "SelectCameraExpMode e = Some m" "pl_exp_setup_cont e = Some eb"
    "new_uns8 e (unat (20 * eb)) = Some buf" "pl_exp_start_cont e"
    by blast
  from main_started [OF ok, of W] assms have "code = 0"
    and "Call_pl_exp_start_cont buf (20 * eb) True \<in> set tr"
    by auto
  with True show ?thesis by auto
next
  case False
  from main_failed [OF not_started_cases [OF False], of W] assms have "code = 1" "wait_results tr = []"
    "\<forall>buf sz. Call_pl_exp_start_cont buf sz True \<notin> set tr"
    by auto
  with False show ?thesis by auto
qed

theorem exit_code_by_setup_witness:
  "fst (main (producer_for 200) env_ok) = 0 \<and>
   fst (main (producer_for 84) env_ok) = 0 \<and>
   fst (main (producer_for 84) (env_ok\<lparr>pl_exp_start_cont := False\<rparr>)) = 1"
proof -
  have ok: "\<exists>c m eb buf. InitAndOpenOneCamera env_ok = Some c \<and> pl_cam_register_callback_ex3 env_ok \<and>
          SelectCameraExpMode env_ok = Some m \<and> pl_exp_setup_cont env_ok = Some eb \<and>
          new_uns8 env_ok (unat (20 * eb)) = Some buf \<and> pl_exp_start_cont env_ok"
    by (simp add: env_ok_def)
  have a: "fst (main (producer_for 200) env_ok) = 0"
    using exit_code_by_setup [of "producer_for 200" env_ok "fst (main (producer_for 200) env_ok)"
        "snd (main (producer_for 200) env_ok)"] ok
    by simp
  have b: "fst (main (producer_for 84) env_ok) = 0"
    using exit_code_by_setup [of "producer_for 84" env_ok "fst (main (producer_for 84) env_ok)"
        "snd (main (producer_for 84) env_ok)"] ok
    by simp
  have c: "fst (main (producer_for 84) (env_ok\<lparr>pl_exp_start_cont := False\<rparr>)) = 1"
    using exit_code_by_setup [of "producer_for 84" "env_ok\<lparr>pl_exp_start_cont := False\<rparr>"
        "fst (main (producer_for 84) (env_ok\<lparr>pl_exp_start_cont := False\<rparr>))"
        "snd (main (producer_for 84) (env_ok\<lparr>pl_exp_start_cont := False\<rparr>))"]
    by auto
  from a b c show ?thesis by simp
qed

subsection \<open>Null arguments\<close>

text \<open>
  C7. When the frame-info argument or the context argument is null, the handler returns at
  once: the context behind \<open>pContext\<close> is returned as it was given, no member changed, and
  the handler does nothing else (no fetch, no mutex, no notification).
\<close>


theorem null_argument_ignored:
  assumes "pFrameInfo = None \<or> pContext = None"
  shows "StallTestEofHandler pFrameInfo pContext fetch = (pContext, [])"
  using assms by (auto simp: StallTestEofHandler_def split: option.splits)

theorem null_argument_ignored_witness:
  "StallTestEofHandler None (Some ctx0) fetch_ok = (Some ctx0, []) \<and>
   StallTestEofHandler (Some frame7) None fetch_ok = (None, [])"
  using null_argument_ignored [of None "Some ctx0" fetch_ok]
    null_argument_ignored [of "Some frame7" None fetch_ok]
  by simp

subsection \<open>A failed fetch leaves no trace\<close>

text \<open>
  C6, as amended. The handler drops the status of the latest-frame fetch: the descriptor
  \<open>eofFrameInfo\<close>, the event with its flag and the counter are the same after a failed
  fetch as after any other fetch, and the whole context is the same when the two fetches
  stored the same frame address (or none). Nothing the consumer can read records the
  failure.
\<close>


theorem fetch_status_dropped:
  "map_option eofFrameInfo (fst (StallTestEofHandler pFrameInfo pContext f1)) =
     map_option eofFrameInfo (fst (StallTestEofHandler pFrameInfo pContext f2)) \<and>
   map_option eofEvent (fst (StallTestEofHandler pFrameInfo pContext f1)) =
     map_option eofEvent (fst (StallTestEofHandler pFrameInfo pContext f2)) \<and>
   map_option eofCounter (fst (StallTestEofHandler pFrameInfo pContext f1)) =
     map_option eofCounter (fst (StallTestEofHandler pFrameInfo pContext f2)) \<and>
   (stored f1 = stored f2 \<longrightarrow>
      fst (StallTestEofHandler pFrameInfo pContext f1) = fst (StallTestEofHandler pFrameInfo pContext f2))"
  by (cases pFrameInfo; cases pContext) (simp_all add: handler_nonnull handler_null)

theorem fetch_status_dropped_witness:
  "stored fetch_failed = stored (fetch_failed\<lparr>pv_ok := True\<rparr>) \<and>
   fst (StallTestEofHandler (Some frame7) (Some ctx0) fetch_failed) =
     fst (StallTestEofHandler (Some frame7) (Some ctx0) (fetch_failed\<lparr>pv_ok := True\<rparr>))"
  using fetch_status_dropped [of "Some frame7" "Some ctx0" fetch_failed "fetch_failed\<lparr>pv_ok := True\<rparr>"]
  by simp

text \<open>
  Frame 7 delivered once with a failed and once with a healthy fetch: descriptor, event and
  counter are equal.
\<close>

theorem fetch_failure_unobservable_counterexample:
  "\<not> pv_ok fetch_failed \<and> pv_ok fetch_ok \<and>
   map_option eofFrameInfo (fst (StallTestEofHandler (Some frame7) (Some ctx0) fetch_failed)) =
     map_option eofFrameInfo (fst (StallTestEofHandler (Some frame7) (Some ctx0) fetch_ok)) \<and>
   map_option eofEvent (fst (StallTestEofHandler (Some frame7) (Some ctx0) fetch_failed)) =
     map_option eofEvent (fst (StallTestEofHandler (Some frame7) (Some ctx0) fetch_ok)) \<and>
   map_option eofCounter (fst (StallTestEofHandler (Some frame7) (Some ctx0) fetch_failed)) =
     map_option eofCounter (fst (StallTestEofHandler (Some frame7) (Some ctx0) fetch_ok))"
  by (simp add: StallTestEofHandler_def Let_def fetch_failed_def fetch_ok_def)

subsection \<open>The mutex\<close>

text \<open>
  C9, as amended. The handler writes the fired flag only while it holds the mutex of the
  event: the write sits between the lock and the unlock that end the handler, and no access
  to the flag happens outside. The descriptor \<open>eofFrameInfo\<close> is written by the handler
  before it takes the mutex. \<open>main\<close> itself never takes the mutex and never writes a
  shared member or reads the flag (the flag is consumed inside \<open>WaitForEofEvent\<close>); after
  a wait that fired it reads the descriptor without holding the mutex.
\<close>


theorem flag_under_mutex_descriptor_not:
  "Write L_flag \<notin> set (unlocked False (snd (StallTestEofHandler pFrameInfo pContext fetch))) \<and>
   Read L_flag \<notin> set (unlocked False (snd (StallTestEofHandler pFrameInfo pContext fetch))) \<and>
   (\<exists>pre. snd (StallTestEofHandler (Some fi) (Some c) fetch) =
             pre @ [MutexLock, Write L_flag, MutexUnlock, CondNotifyAll]) \<and>
   Write L_eofFrameInfo \<in> set (unlocked False (snd (StallTestEofHandler (Some fi) (Some c) fetch))) \<and>
   MutexLock \<notin> set (snd (main W e)) \<and>
   (\<forall>l. Write l \<notin> set (snd (main W e))) \<and>
   Read L_flag \<notin> set (snd (main W e)) \<and>
   (True \<in> set (wait_results (snd (main W e))) \<longrightarrow>
      Read L_eofFrameInfo \<in> set (unlocked False (snd (main W e))))"
proof -
  have h: "Write L_flag \<notin> set (unlocked False (snd (StallTestEofHandler pFrameInfo pContext fetch))) \<and>
   Read L_flag \<notin> set (unlocked False (snd (StallTestEofHandler pFrameInfo pContext fetch)))"
    by (cases pFrameInfo; cases pContext; cases "stored fetch") (simp_all add: handler_nonnull handler_null)
  have s: "\<exists>pre. snd (StallTestEofHandler (Some fi) (Some c) fetch) =
             pre @ [MutexLock, Write L_flag, MutexUnlock, CondNotifyAll]"
    by (simp add: handler_nonnull)
  have d: "Write L_eofFrameInfo \<in> set (unlocked False (snd (StallTestEofHandler (Some fi) (Some c) fetch)))"
    by (simp add: handler_nonnull)
  have m1: "MutexLock \<notin> set (snd (main W e))"
    using main_event_plain [of MutexLock W e] by blast
  have m2: "\<forall>l. Write l \<notin> set (snd (main W e))"
    using main_event_plain [of _ W e] by blast
  have m3: "Read L_flag \<notin> set (snd (main W e))"
    using main_event_plain [of "Read L_flag" W e] by auto
  have m4: "Read L_eofFrameInfo \<in> set (unlocked False (snd (main W e)))"
    if "True \<in> set (wait_results (snd (main W e)))"
    using unlocked_without_lock [OF m1 main_fired_then_read [OF that]] .
  from h s d m1 m2 m3 m4 show ?thesis by blast
qed

theorem flag_under_mutex_descriptor_not_witness:
  "True \<in> set (wait_results (snd (main (producer_for 84) env_ok))) \<and>
   Read L_eofFrameInfo \<in> set (unlocked False (snd (main (producer_for 84) env_ok))) \<and>
   Write L_flag \<notin> set (unlocked False (snd (StallTestEofHandler (Some frame7) (Some ctx0) fetch_ok)))"
proof -
  have "wait_results (snd (main (producer_for 84) env_ok)) =
      wait_results (fst (snd (acq_loop (producer_for 84) 0 0 w_idle)))"
    by (simp add: main_def env_ok_def w_idle_def Let_def ucast_frames wait_results_append report_no_wait)
  also have "\<dots> = replicate 84 True @ [False]"
    using producer_results [of 0 w_idle 84 0] by (simp add: w_idle_def)
  finally have "wait_results (snd (main (producer_for 84) env_ok)) = True # replicate 83 True @ [False]"
    by (simp add: numeral_eq_Suc)
  then have h: "True \<in> set (wait_results (snd (main (producer_for 84) env_ok)))"
    by simp
  with flag_under_mutex_descriptor_not [of "Some frame7" "Some ctx0" fetch_ok frame7 ctx0 "producer_for 84" env_ok]
  show ?thesis by simp
qed

text \<open>The handler's write of the descriptor, outside the mutex.\<close>

theorem descriptor_written_unlocked_counterexample:
  "Write L_eofFrameInfo \<in> set (unlocked False (snd (StallTestEofHandler (Some frame7) (Some ctx0) fetch_ok)))"
  by (simp add: StallTestEofHandler_def Let_def fetch_ok_def)

subsection \<open>No signal is delivered twice\<close>

text \<open>
  C4, as amended. A wait returns a fired result exactly when a signal is pending at its
  start or is given before its deadline. When it fires, it returns the world of the first
  millisecond in which it found the flag set, with nothing changed but the flag cleared:
  looking and clearing are one step, with no callback in between. The signals given up to
  that moment, at least one when none was pending, however many there are, are consumed by
  this one fired result: nothing is pending afterwards, and a later wait fires only for a
  signal given later. A wait that times out leaves the world as the elapsed milliseconds
  made it, with nothing pending. Over any sequence of waits the fired results, plus the
  signal pending at the end, are at most the signals the driver gave in the elapsed time,
  plus the signal pending at the start: at most one consumed read per signal, not exactly
  one.
\<close>


theorem wait_consumes_once:
  "(fst (WaitForEofEvent t w) \<longleftrightarrow> 0 < pending w \<or> (\<exists>j<unat t. signal_at w j)) \<and>
   (fst (WaitForEofEvent t w) \<longrightarrow>
      (\<exists>k\<le>unat t. flag_after w k \<and> (\<forall>j<k. \<not> flag_after w j) \<and>
         snd (WaitForEofEvent t w) = clear_flag ((tick ^^ k) w) \<and>
         (pending w = 0 \<longrightarrow> 1 \<le> given w k) \<and>
         (\<forall>t2. fst (WaitForEofEvent t2 (snd (WaitForEofEvent t w))) \<longleftrightarrow>
                 (\<exists>j<unat t2. signal_at w (k + j))))) \<and>
   (\<not> fst (WaitForEofEvent t w) \<longrightarrow> snd (WaitForEofEvent t w) = (tick ^^ unat t) w) \<and>
   pending (snd (WaitForEofEvent t w)) = 0 \<and>
   count_list (fst (waits ts w)) True + pending (snd (waits ts w))
     \<le> given w (now (snd (waits ts w)) - now w) + pending w"
proof -
  have A: "fst (WaitForEofEvent t w) \<longleftrightarrow> 0 < pending w \<or> (\<exists>j<unat t. signal_at w j)"
    by (simp add: WaitForEofEvent_def wait_fires_iff)
  have B: "\<exists>k\<le>unat t. flag_after w k \<and> (\<forall>j<k. \<not> flag_after w j) \<and>
         snd (WaitForEofEvent t w) = clear_flag ((tick ^^ k) w) \<and>
         (pending w = 0 \<longrightarrow> 1 \<le> given w k) \<and>
         (\<forall>t2. fst (WaitForEofEvent t2 (snd (WaitForEofEvent t w))) \<longleftrightarrow>
                 (\<exists>j<unat t2. signal_at w (k + j)))"
    if f: "fst (WaitForEofEvent t w)"
  proof -
    from wait_exact [of "unat t" w] f obtain k where k: "k \<le> unat t" "flag_after w k"
      "\<forall>j<k. \<not> flag_after w j" "snd (WaitForEofEvent t w) = clear_flag ((tick ^^ k) w)"
      by (auto simp: WaitForEofEvent_def)
    from flag_after_given [OF k(2)] have g: "pending w = 0 \<longrightarrow> 1 \<le> given w k" by simp
    have n: "fst (WaitForEofEvent t2 (snd (WaitForEofEvent t w))) \<longleftrightarrow> (\<exists>j<unat t2. signal_at w (k + j))"
      for t2
    proof -
      have "signal_at (clear_flag ((tick ^^ k) w)) j = signal_at w (k + j)" for j
        using signal_at_ticks [of k w j]
        by (simp add: signal_at_def clear_flag_fields)
      moreover have "fst (WaitForEofEvent t2 (clear_flag ((tick ^^ k) w))) \<longleftrightarrow>
          (\<exists>j<unat t2. signal_at (clear_flag ((tick ^^ k) w)) j)"
        by (simp add: WaitForEofEvent_def wait_fires_iff clear_flag_fields)
      ultimately show ?thesis by (simp add: k(4))
    qed
    have "k \<le> unat t \<and> (flag_after w k \<and> (\<forall>j<k. \<not> flag_after w j) \<and>
         snd (WaitForEofEvent t w) = clear_flag ((tick ^^ k) w) \<and>
         (pending w = 0 \<longrightarrow> 1 \<le> given w k) \<and>
         (\<forall>t2. fst (WaitForEofEvent t2 (snd (WaitForEofEvent t w))) \<longleftrightarrow>
                 (\<exists>j<unat t2. signal_at w (k + j))))"
    proof (intro conjI)
      show "k \<le> unat t" by (rule k(1))
      show "flag_after w k" by (rule k(2))
      show "\<forall>j<k. \<not> flag_after w j" by (rule k(3))
      show "snd (WaitForEofEvent t w) = clear_flag ((tick ^^ k) w)" by (rule k(4))
      show "pending w = 0 \<longrightarrow> 1 \<le> given w k" by (rule g)
      show "\<forall>t2. fst (WaitForEofEvent t2 (snd (WaitForEofEvent t w))) \<longleftrightarrow>
                 (\<exists>j<unat t2. signal_at w (k + j))"
        by (intro allI) (rule n)
    qed
    then show ?thesis by (rule exI)
  qed
  have C: "snd (WaitForEofEvent t w) = (tick ^^ unat t) w" if "\<not> fst (WaitForEofEvent t w)"
    using wait_exact [of "unat t" w] that by (auto simp: WaitForEofEvent_def)
  have D: "pending (snd (WaitForEofEvent t w)) = 0"
    using wait_summary [of "unat t" w] by (auto simp: WaitForEofEvent_def)
  have E: "count_list (fst (waits ts w)) True + pending (snd (waits ts w))
     \<le> given w (now (snd (waits ts w)) - now w) + pending w"
    using waits_summary [of ts w] by auto
  show ?thesis
  proof (intro conjI impI)
    show "fst (WaitForEofEvent t w) \<longleftrightarrow> 0 < pending w \<or> (\<exists>j<unat t. signal_at w j)"
      by (rule A)
    show "\<exists>k\<le>unat t. flag_after w k \<and> (\<forall>j<k. \<not> flag_after w j) \<and>
         snd (WaitForEofEvent t w) = clear_flag ((tick ^^ k) w) \<and>
         (pending w = 0 \<longrightarrow> 1 \<le> given w k) \<and>
         (\<forall>t2. fst (WaitForEofEvent t2 (snd (WaitForEofEvent t w))) \<longleftrightarrow>
                 (\<exists>j<unat t2. signal_at w (k + j)))"
      if "fst (WaitForEofEvent t w)"
      using that by (rule B)
    show "snd (WaitForEofEvent t w) = (tick ^^ unat t) w" if "\<not> fst (WaitForEofEvent t w)"
      using that by (rule C)
    show "pending (snd (WaitForEofEvent t w)) = 0" by (rule D)
    show "count_list (fst (waits ts w)) True + pending (snd (waits ts w))
     \<le> given w (now (snd (waits ts w)) - now w) + pending w"
      by (rule E)
  qed
qed

theorem wait_consumes_once_witness:
  "fst (WaitForEofEvent 2000 w_back_to_back) \<and> pending w_back_to_back = 0 \<and>
   (\<exists>k\<le>unat (2000 :: uns32).
      snd (WaitForEofEvent 2000 w_back_to_back) = clear_flag ((tick ^^ k) w_back_to_back) \<and>
      1 \<le> given w_back_to_back k) \<and>
   pending (snd (WaitForEofEvent 2000 w_back_to_back)) = 0 \<and>
   \<not> fst (WaitForEofEvent 2000 (snd (WaitForEofEvent 2000 w_back_to_back))) \<and>
   snd (WaitForEofEvent 2000 (snd (WaitForEofEvent 2000 w_back_to_back))) =
     (tick ^^ unat (2000 :: uns32)) (snd (WaitForEofEvent 2000 w_back_to_back))"
proof -
  have f: "fst (WaitForEofEvent 2000 w_back_to_back)"
    by (simp add: first_wait_back_to_back)
  have p: "pending w_back_to_back = 0"
    by (simp add: pending_def w_back_to_back_def ctx0_def)
  have n: "\<not> fst (WaitForEofEvent 2000 (snd (WaitForEofEvent 2000 w_back_to_back)))"
    by (simp add: first_wait_back_to_back second_wait_back_to_back)
  note one = wait_consumes_once [of 2000 w_back_to_back "[]"]
  note two = wait_consumes_once [of 2000 "snd (WaitForEofEvent 2000 w_back_to_back)" "[]"]
  from one f p have e: "\<exists>k\<le>unat (2000 :: uns32).
      snd (WaitForEofEvent 2000 w_back_to_back) = clear_flag ((tick ^^ k) w_back_to_back) \<and>
      1 \<le> given w_back_to_back k"
    by fast
  from one have q: "pending (snd (WaitForEofEvent 2000 w_back_to_back)) = 0"
    by (elim conjE)
  from two n have s: "snd (WaitForEofEvent 2000 (snd (WaitForEofEvent 2000 w_back_to_back))) =
     (tick ^^ unat (2000 :: uns32)) (snd (WaitForEofEvent 2000 w_back_to_back))"
    by (elim conjE) (erule mp)
  show ?thesis
    by (intro conjI) (rule f p e q n s)+
qed

text \<open>
  Two callbacks within the same millisecond, then two waits of 2000 ms: the first wait
  fires, the second times out. In the 2001 ms that passed two signals were given and one
  was consumed.
\<close>

theorem two_signals_one_read_counterexample:
  "given w_back_to_back 2001 = 2 \<and>
   fst (waits [2000, 2000] w_back_to_back) = [True, False] \<and>
   now (snd (waits [2000, 2000] w_back_to_back)) = 2001"
proof -
  have "given w_back_to_back (Suc 2000) = 2" by (rule given_back_to_back)
  then have "given w_back_to_back 2001 = 2" by simp
  moreover have "fst (waits [2000, 2000] w_back_to_back) = [True, False]"
    by (simp add: Let_def first_wait_back_to_back second_wait_back_to_back)
  moreover have "now (snd (waits [2000, 2000] w_back_to_back)) = 2001"
    by (simp add: Let_def first_wait_back_to_back second_wait_back_to_back)
  ultimately show ?thesis by simp
qed

subsection \<open>A failed fetch does not stop the signal\<close>

text \<open>
  C5. When the handler is called with non-null arguments and the fetch of the latest frame
  fails, the handler still returns normally, with no error passed on: it has counted the
  call, recorded the frame info, set the flag under the mutex and ended with the
  notification of the consumer, and the context it leaves differs from the one left after
  any other fetch at most in the frame address. For the consumer the frame counts as a
  healthy one does: under every wait that is blind to the fetch, a run of \<open>main\<close> in which
  the driver passes the same frames with other fetch results has the same exit code and
  the same events, so the same frames counted.
\<close>


theorem failed_fetch_still_counted:
  assumes "\<not> pv_ok fetch"
  shows "(\<exists>c' pre. StallTestEofHandler (Some fi) (Some c) fetch =
            (Some c', pre @ [MutexLock, Write L_flag, MutexUnlock, CondNotifyAll]) \<and>
          eofCounter c' = eofCounter c + 1 \<and> eofFrameInfo c' = fi \<and> flag (eofEvent c') \<and>
          (\<forall>healthy. \<exists>c''. fst (StallTestEofHandler (Some fi) (Some c) healthy) = Some c'' \<and>
                            same_but_frame c' c'')) \<and>
         (\<forall>W d. blind_to_fetch W \<and> (\<forall>t. map fst (d t) = map fst (driver e t)) \<longrightarrow>
              main W (e\<lparr>driver := d\<rparr>) = main W e)"
proof -
  let ?c' = "c\<lparr>eofCounter := eofCounter c + 1, eofFrameInfo := fi,
              eofFrame := (case stored fetch of None \<Rightarrow> eofFrame c | Some a \<Rightarrow> a),
              eofEvent := (eofEvent c)\<lparr>flag := True\<rparr>\<rparr>"
  let ?pre = "[Read L_eofCounter, Write L_eofCounter, Write L_eofFrameInfo,
       Call_pl_exp_get_latest_frame (hcam c) (pv_ok fetch)]
      @ (case stored fetch of None \<Rightarrow> [] | Some a \<Rightarrow> [Write L_eofFrame])"
  have 1: "StallTestEofHandler (Some fi) (Some c) fetch =
            (Some ?c', ?pre @ [MutexLock, Write L_flag, MutexUnlock, CondNotifyAll])"
    by (simp add: handler_nonnull)
  have 2: "eofCounter ?c' = eofCounter c + 1 \<and> eofFrameInfo ?c' = fi \<and> flag (eofEvent ?c')"
    by simp
  have 3: "\<exists>c''. fst (StallTestEofHandler (Some fi) (Some c) healthy) = Some c'' \<and> same_but_frame ?c' c''"
    for healthy
    by (simp add: handler_nonnull same_but_frame_def)
  from 1 2 3 have h: "\<exists>c' pre. StallTestEofHandler (Some fi) (Some c) fetch =
            (Some c', pre @ [MutexLock, Write L_flag, MutexUnlock, CondNotifyAll]) \<and>
          eofCounter c' = eofCounter c + 1 \<and> eofFrameInfo c' = fi \<and> flag (eofEvent c') \<and>
          (\<forall>healthy. \<exists>c''. fst (StallTestEofHandler (Some fi) (Some c) healthy) = Some c'' \<and>
                            same_but_frame c' c'')"
    by blast
  from h main_same show ?thesis by blast
qed

theorem failed_fetch_still_counted_witness:
  "\<not> pv_ok fetch_failed \<and> blind_to_fetch WaitForEofEvent \<and>
   fst (StallTestEofHandler (Some frame7) (Some ctx0) fetch_failed) =
     Some (ctx0\<lparr>eofCounter := 1, eofFrameInfo := frame7, eofEvent := \<lparr>flag = True\<rparr>\<rparr>) \<and>
   (\<forall>t. map fst (one_frame fetch_ok t) = map fst (driver (env_ok\<lparr>driver := one_frame fetch_failed\<rparr>) t)) \<and>
   main WaitForEofEvent (env_ok\<lparr>driver := one_frame fetch_ok\<rparr>) =
     main WaitForEofEvent (env_ok\<lparr>driver := one_frame fetch_failed\<rparr>) \<and>
   wait_results (snd (main WaitForEofEvent (env_ok\<lparr>driver := one_frame fetch_failed\<rparr>))) = [True, False]"
proof -
  have n: "\<not> pv_ok fetch_failed" by (simp add: fetch_failed_def)
  have d: "\<forall>t. map fst (one_frame fetch_ok t) = map fst (driver (env_ok\<lparr>driver := one_frame fetch_failed\<rparr>) t)"
    by (simp add: one_frame_def)
  from failed_fetch_still_counted [OF n, of frame7 ctx0 "env_ok\<lparr>driver := one_frame fetch_failed\<rparr>"] d
    wait_blind
  have m: "main WaitForEofEvent (env_ok\<lparr>driver := one_frame fetch_failed, driver := one_frame fetch_ok\<rparr>) =
     main WaitForEofEvent (env_ok\<lparr>driver := one_frame fetch_failed\<rparr>)"
    by blast
  have h: "fst (StallTestEofHandler (Some frame7) (Some ctx0) fetch_failed) =
     Some (ctx0\<lparr>eofCounter := 1, eofFrameInfo := frame7, eofEvent := \<lparr>flag = True\<rparr>\<rparr>)"
    by (simp add: handler_nonnull fetch_failed_def ctx0_def)
  from n d m h wait_blind one_frame_results [of fetch_failed] show ?thesis by simp
qed

end
